theory Spec2Isabelle
  imports Main
begin

section \<open>Mode policy: class EngineMode\<close>

text \<open>
  The three device strings the source returns from \<open>EngineMode.device\<close>:
  "cuda", "mps" and "cpu".
\<close>

datatype dev = Cuda | Mps | Cpu

text \<open>
  What the torch runtime answers when \<open>EngineMode.device\<close> probes it. \<open>None\<close> stands for
  \<open>getattr(torch, 'cuda', False)\<close> (or \<open>getattr(torch.backends, 'mps', False)\<close>) giving
  \<open>False\<close>, \<open>Some b\<close> for the attribute being there and \<open>is_available()\<close> returning \<open>b\<close>.
  One value of this record is one moment of the runtime: a property read in the source
  probes again at every access.
\<close>

record torch_env =
  cuda_probe :: "bool option"
  mps_probe :: "bool option"

record EngineMode =
  vramO :: int
  enable_cuda :: bool
  enable_mps :: bool

definition EngineMode_init :: "int \<Rightarrow> bool \<Rightarrow> bool \<Rightarrow> EngineMode" where
  "EngineMode_init vram_optimisation_level en_cuda en_mps =
     \<lparr>vramO = vram_optimisation_level, enable_cuda = en_cuda, enable_mps = en_mps\<rparr>"

text \<open>The defaults of the constructor: level 0, cuda enabled, mps disabled.\<close>

definition EngineMode_default :: EngineMode where
  "EngineMode_default = EngineMode_init 0 True False"

definition probe_ok :: "bool option \<Rightarrow> bool" where
  "probe_ok p = (case p of None \<Rightarrow> False | Some b \<Rightarrow> b)"

definition hasCuda :: "torch_env \<Rightarrow> EngineMode \<Rightarrow> bool" where
  "hasCuda t m = (enable_cuda m \<and> probe_ok (cuda_probe t))"

definition hasMps :: "torch_env \<Rightarrow> EngineMode \<Rightarrow> bool" where
  "hasMps t m = (enable_mps m \<and> probe_ok (mps_probe t))"

definition device :: "torch_env \<Rightarrow> EngineMode \<Rightarrow> dev" where
  "device t m = (if hasCuda t m then Cuda else if hasMps t m then Mps else Cpu)"

definition attention_slice :: "torch_env \<Rightarrow> EngineMode \<Rightarrow> bool" where
  "attention_slice t m = (device t m = Cuda \<and> vramO m > 0)"

definition cuda_only_unet :: "torch_env \<Rightarrow> EngineMode \<Rightarrow> bool" where
  "cuda_only_unet t m = (device t m = Cuda \<and> vramO m > 2)"

definition fp16 :: "torch_env \<Rightarrow> EngineMode \<Rightarrow> bool" where
  "fp16 t m = (device t m = Cuda \<and> vramO m > 1 \<and> \<not> cuda_only_unet t m)"

section \<open>Progress reporter: class ProgressBarWrapper\<close>

text \<open>
  The stop signal is an object set from outside the loop. The model keeps what the loop
  can see of it: \<open>ev k\<close> is the answer of the call of \<open>is_set()\<close> number \<open>k\<close>
  (from 0) made on it. The progress callback is a callable of the caller and is kept by
  reference only.
\<close>

type_synonym event = "nat \<Rightarrow> bool"
type_synonym callback = nat

record ProgressBarWrapper =
  progress_callback :: "callback option"
  stop_event :: "event option"

record 'a InternalTqdm =
  tq_progress_callback :: "callback option"
  tq_stop_event :: "event option"
  iterable :: "'a list"
  desc :: string

definition ProgressBarWrapper_init :: "callback option \<Rightarrow> event option \<Rightarrow> ProgressBarWrapper" where
  "ProgressBarWrapper_init cb ev = \<lparr>progress_callback = cb, stop_event = ev\<rparr>"

text \<open>\<open>__call__\<close>: the bar of one iteration; tqdm starts with an empty description.\<close>

definition ProgressBarWrapper_call :: "ProgressBarWrapper \<Rightarrow> 'a list \<Rightarrow> 'a InternalTqdm" where
  "ProgressBarWrapper_call pb xs =
     \<lparr>tq_progress_callback = progress_callback pb, tq_stop_event = stop_event pb,
      iterable = xs, desc = []\<rparr>"

text \<open>
  The loop of \<open>InternalTqdm.__iter__\<close> over the elements tqdm hands out, which are
  those of the iterable in order. \<open>k\<close> counts the polls of the stop signal made so far.
  A signal that is \<open>None\<close> is falsy and is never polled. The result is the list of
  elements yielded and the description: once the loop has broken off it is
  "ABORTED: ", as \<open>set_description\<close> of tqdm appends a colon and a space to a
  description that is not empty.
  The method \<open>update\<close>, which hands the progress to the callback when tqdm refreshes
  its display, does not act on the iteration and is left out.
\<close>

fun iter_loop :: "event option \<Rightarrow> nat \<Rightarrow> string \<Rightarrow> 'a list \<Rightarrow> 'a list \<times> string" where
  "iter_loop ev k d [] = ([], d)"
| "iter_loop ev k d (x # xs) =
     (case ev of
        None \<Rightarrow> (let (ys, d') = iter_loop ev k d xs in (x # ys, d'))
      | Some e \<Rightarrow>
          if e k then ([], ''ABORTED: '')
          else (let (ys, d') = iter_loop ev (Suc k) d xs in (x # ys, d')))"

definition InternalTqdm_iter :: "'a InternalTqdm \<Rightarrow> 'a list \<times> string" where
  "InternalTqdm_iter tq = iter_loop (tq_stop_event tq) 0 (desc tq) (iterable tq)"

section \<open>Schedulers and the store of objects\<close>

text \<open>
  Values of a scheduler's configuration dictionary, as far as the source looks at them.
  \<open>py_ne\<close> is Python's \<open>!=\<close> on them: \<open>True == 1\<close> and \<open>False == 0\<close> hold in Python.
\<close>

datatype pyval = PInt int | PBool bool | PStr string | PNone

fun as_int :: "pyval \<Rightarrow> int option" where
  "as_int (PInt i) = Some i"
| "as_int (PBool b) = Some (if b then 1 else 0)"
| "as_int (PStr s) = None"
| "as_int PNone = None"

definition py_ne :: "pyval \<Rightarrow> pyval \<Rightarrow> bool" where
  "py_ne a b =
     (case (as_int a, as_int b) of
        (Some i, Some j) \<Rightarrow> i \<noteq> j
      | _ \<Rightarrow> a \<noteq> b)"

type_synonym sref = nat
type_synonym wref = nat

text \<open>
  A scheduler object: the tensor format \<open>set_format\<close> stores and the frozen
  configuration dictionary \<open>_internal_dict\<close>, which the property \<open>config\<close> returns.
\<close>

record scheduler =
  tensor_format :: string
  internal_dict :: "string \<rightharpoonup> pyval"

datatype warning = DeprecationWarning sref pyval

text \<open>
  The schedulers the four constructor calls of \<open>PipelineWrapper.__init__\<close> return for
  their fixed keyword arguments. The scheduler classes are not part of the file
  modelled, so the objects they build are parameters.
\<close>

record sched_ctors =
  LMSDiscreteScheduler :: scheduler
  DDIMScheduler :: scheduler
  EulerDiscreteScheduler :: scheduler
  EulerAncestralDiscreteScheduler :: scheduler

text \<open>
  What the source reads and writes of the underlying diffusion pipeline: where its
  modules are (the unet apart, as \<open>activate\<close> can move it alone), whether they were
  cast to half precision, the attention slice size, the scheduler installed (a
  reference) and the progress bar installed.
\<close>

record pipeline =
  module_device :: dev
  unet_device :: dev
  module_half :: bool
  unet_half :: bool
  attention_slicing :: "int option"
  scheduler :: sref
  progress_bar :: "ProgressBarWrapper option"

record wrapper =
  w_id :: string
  w_mode :: EngineMode
  w_pipeline :: pipeline
  plms :: sref
  klms :: sref
  ddim :: sref
  euler :: sref
  eulera :: sref

text \<open>
  The store: scheduler and wrapper objects by address (the index in the list; an
  object is allocated by appending it), and the warnings issued so far.
\<close>

record heap =
  scheds :: "scheduler list"
  wraps :: "wrapper list"
  warnlog :: "warning list"

definition new_scheduler :: "scheduler \<Rightarrow> heap \<Rightarrow> sref \<times> heap" where
  "new_scheduler s h = (length (scheds h), h\<lparr>scheds := scheds h @ [s]\<rparr>)"

text \<open>\<open>set_format\<close> of the scheduler base class stores the format and returns the object itself.\<close>

definition set_format :: "string \<Rightarrow> scheduler \<Rightarrow> scheduler" where
  "set_format f s = s\<lparr>tensor_format := f\<rparr>"

definition prepScheduler :: "sref \<Rightarrow> heap \<Rightarrow> sref \<times> heap" where
  "prepScheduler r h =
     (let h1 = h\<lparr>scheds := (scheds h)[r := set_format ''pt'' (scheds h ! r)]\<rparr>;
          cfg = internal_dict (scheds h1 ! r)
      in case cfg ''steps_offset'' of
           None \<Rightarrow> (r, h1)
         | Some v \<Rightarrow>
             if py_ne v (PInt 1) then
               (let new_config = cfg(''steps_offset'' \<mapsto> PInt 1)
                in (r, h1\<lparr>warnlog := warnlog h1 @ [DeprecationWarning r v],
                          scheds := (scheds h1)[r := (scheds h1 ! r)\<lparr>internal_dict := new_config\<rparr>]\<rparr>))
             else (r, h1))"

section \<open>Pipeline wrapper: class PipelineWrapper\<close>

text \<open>The calls on the underlying pipeline: \<open>to\<close> with a dtype or a device, on all of it or on the unet.\<close>

definition pipeline_to_half :: "pipeline \<Rightarrow> pipeline" where
  "pipeline_to_half p = p\<lparr>module_half := True, unet_half := True\<rparr>"

definition unet_to_half :: "pipeline \<Rightarrow> pipeline" where
  "unet_to_half p = p\<lparr>unet_half := True\<rparr>"

definition pipeline_to :: "dev \<Rightarrow> pipeline \<Rightarrow> pipeline" where
  "pipeline_to d p = p\<lparr>module_device := d, unet_device := d\<rparr>"

definition unet_to :: "dev \<Rightarrow> pipeline \<Rightarrow> pipeline" where
  "unet_to d p = p\<lparr>unet_device := d\<rparr>"

definition enable_attention_slicing :: "int \<Rightarrow> pipeline \<Rightarrow> pipeline" where
  "enable_attention_slicing n p = p\<lparr>attention_slicing := Some n\<rparr>"

definition PipelineWrapper_init ::
  "torch_env \<Rightarrow> sched_ctors \<Rightarrow> string \<Rightarrow> EngineMode \<Rightarrow> pipeline \<Rightarrow> heap \<Rightarrow> wrapper \<times> heap" where
  "PipelineWrapper_init t c i md p h =
     (let p1 = (if fp16 t md then pipeline_to_half p
                else if cuda_only_unet t md then unet_to_half p
                else p);
          p2 = (if attention_slice t md then enable_attention_slicing 1 p1 else p1);
          (r1, h1) = new_scheduler (LMSDiscreteScheduler c) h;
          (k, h2) = prepScheduler r1 h1;
          (r2, h3) = new_scheduler (DDIMScheduler c) h2;
          (d, h4) = prepScheduler r2 h3;
          (r3, h5) = new_scheduler (EulerDiscreteScheduler c) h4;
          (e, h6) = prepScheduler r3 h5;
          (r4, h7) = new_scheduler (EulerAncestralDiscreteScheduler c) h6;
          (ea, h8) = prepScheduler r4 h7
      in (\<lparr>w_id = i, w_mode = md, w_pipeline = p2,
           plms = scheduler p, klms = k, ddim = d, euler = e, eulera = ea\<rparr>, h8))"

text \<open>
  \<open>activate\<close> and \<open>deactivate\<close>. The call of \<open>torch.cuda.empty_cache()\<close> in
  \<open>deactivate\<close> acts on the allocator of the runtime only, which is outside the state.
\<close>

definition activate :: "torch_env \<Rightarrow> wrapper \<Rightarrow> wrapper" where
  "activate t w =
     (if cuda_only_unet t (w_mode w) then w\<lparr>w_pipeline := unet_to Cuda (w_pipeline w)\<rparr>
      else w\<lparr>w_pipeline := pipeline_to (device t (w_mode w)) (w_pipeline w)\<rparr>)"

definition deactivate :: "torch_env \<Rightarrow> wrapper \<Rightarrow> wrapper" where
  "deactivate t w = w\<lparr>w_pipeline := pipeline_to Cpu (w_pipeline w)\<rparr>"

text \<open>Residency: a wrapper is on the host when nothing of its pipeline is on an accelerator.\<close>

definition host_resident :: "wrapper \<Rightarrow> bool" where
  "host_resident w = (module_device (w_pipeline w) = Cpu \<and> unet_device (w_pipeline w) = Cpu)"

definition accelerator_resident :: "wrapper \<Rightarrow> bool" where
  "accelerator_resident w = (\<not> host_resident w)"

section \<open>Generation: PipelineWrapper.generate\<close>

datatype error =
    KeyError string
  | NotImplementedError string
  | Exception string
  | Upstream string

text \<open>
  The sampler constants of the module \<open>generation_pb2\<close>, which is generated from the
  protocol definition and not part of the file modelled: they are a parameter.
\<close>

record generation_pb2 =
  SAMPLER_DDPM :: int
  SAMPLER_K_LMS :: int
  SAMPLER_DDIM :: int
  SAMPLER_K_EULER :: int
  SAMPLER_K_EULER_ANCESTRAL :: int

text \<open>
  The request parameters. \<open>'f\<close> is the type of the floating point fields, which
  \<open>generate\<close> passes on unread; \<open>'t\<close> below is the type of image tensors.
\<close>

record 'f GenerationParams =
  sampler :: "int option"
  seed :: int
  strength :: 'f
  width :: int
  height :: int
  steps :: int
  cfg_scale :: 'f
  eta :: 'f

record ('f, 't) request =
  req_text :: string
  params :: "'f GenerationParams"
  req_image :: "'t option"
  req_mask :: "'t option"
  req_outmask :: "'t option"
  negative_text :: "string option"
  req_progress_callback :: "callback option"
  req_stop_event :: "event option"

text \<open>
  The keyword arguments of the call of the underlying pipeline, with the random
  generator (its device and seed) and whether the call runs under \<open>torch.autocast\<close>.
\<close>

record ('f, 't) pipe_call =
  prompt :: string
  negative_prompt :: "string option"
  init_image :: "'t option"
  mask_image :: "'t option"
  outmask_image :: "'t option"
  call_strength :: 'f
  call_width :: int
  call_height :: int
  num_inference_steps :: int
  guidance_scale :: 'f
  call_eta :: 'f
  generator :: "(dev \<times> int) option"
  autocast :: bool

text \<open>\<open>pipeline.device\<close>: the device of the pipeline's modules.\<close>

definition pipeline_device :: "pipeline \<Rightarrow> dev" where
  "pipeline_device p = module_device p"

text \<open>The \<open>if\<close>/\<open>elif\<close> chain of \<open>generate\<close> over the sampler, in the order of the source.\<close>

definition select_scheduler :: "generation_pb2 \<Rightarrow> wrapper \<Rightarrow> int option \<Rightarrow> error + sref" where
  "select_scheduler pb w smp =
     (if smp = None \<or> smp = Some (SAMPLER_DDPM pb) then Inr (plms w)
      else if smp = Some (SAMPLER_K_LMS pb) then Inr (klms w)
      else if smp = Some (SAMPLER_DDIM pb) then Inr (ddim w)
      else if smp = Some (SAMPLER_K_EULER pb) then Inr (euler w)
      else if smp = Some (SAMPLER_K_EULER_ANCESTRAL pb) then Inr (eulera w)
      else Inl (NotImplementedError ''Scheduler not implemented''))"

text \<open>
  \<open>generate\<close>. \<open>forward\<close> is the call of the underlying pipeline, a collaborator: it
  returns the images or fails, and its failure passes through. The result is the value
  returned or the exception raised, with the wrapper as the call leaves it.
\<close>

definition generate ::
  "generation_pb2 \<Rightarrow> (pipeline \<Rightarrow> ('f, 't) pipe_call \<Rightarrow> error + 't) \<Rightarrow> torch_env \<Rightarrow>
   wrapper \<Rightarrow> ('f, 't) request \<Rightarrow> (error + 't) \<times> wrapper" where
  "generate pb forward t w rq =
     (let ps = params rq;
          gen = (if seed ps > 0
                 then (let latents_device =
                             (if pipeline_device (w_pipeline w) = Mps then Cpu
                              else pipeline_device (w_pipeline w))
                       in Some (latents_device, seed ps))
                 else None)
      in case select_scheduler pb w (sampler ps) of
           Inl e \<Rightarrow> (Inl e, w)
         | Inr sch \<Rightarrow>
             (let p' = (w_pipeline w)\<lparr>scheduler := sch,
                         progress_bar := Some (ProgressBarWrapper_init (req_progress_callback rq) (req_stop_event rq))\<rparr>;
                  w' = w\<lparr>w_pipeline := p'\<rparr>;
                  images = forward p'
                    \<lparr>prompt = req_text rq,
                     negative_prompt = (case negative_text rq of
                                          None \<Rightarrow> None
                                        | Some n \<Rightarrow> if n = [] then None else Some n),
                     init_image = req_image rq,
                     mask_image = req_mask rq,
                     outmask_image = req_outmask rq,
                     call_strength = strength ps,
                     call_width = width ps,
                     call_height = height ps,
                     num_inference_steps = steps ps,
                     guidance_scale = cfg_scale ps,
                     call_eta = eta ps,
                     generator = gen,
                     autocast = (device t (w_mode w) = Cuda)\<rparr>
              in (images, w')))"

text \<open>A run of \<open>generate\<close> calls on one wrapper, the results dropped.\<close>

fun generate_all ::
  "generation_pb2 \<Rightarrow> (pipeline \<Rightarrow> ('f, 't) pipe_call \<Rightarrow> error + 't) \<Rightarrow> torch_env \<Rightarrow>
   wrapper \<Rightarrow> ('f, 't) request list \<Rightarrow> wrapper" where
  "generate_all pb forward t w [] = w"
| "generate_all pb forward t w (rq # rqs) =
     generate_all pb forward t (snd (generate pb forward t w rq)) rqs"

section \<open>Engine manager: class EngineManager\<close>

text \<open>
  An engine configuration: a dictionary with the keys \<open>id\<close>, \<open>class\<close> and \<open>model\<close>, and
  the optional keys \<open>local_model\<close>, \<open>enabled\<close>, \<open>default\<close> and \<open>use_auth_token\<close>, which
  are \<open>None\<close> when the key is missing.
\<close>

record engine =
  e_id :: string
  e_class :: string
  e_model :: string
  local_model :: "string option"
  enabled :: "bool option"
  e_default :: "bool option"
  use_auth_token :: "bool option"

text \<open>\<open>engine.get(key, d)\<close> on an optional flag.\<close>

definition get_flag :: "bool option \<Rightarrow> bool \<Rightarrow> bool" where
  "get_flag v d = (case v of None \<Rightarrow> d | Some b \<Rightarrow> b)"

text \<open>The value of \<open>use_auth_token\<close>: a token string, \<open>True\<close> or \<open>False\<close>.\<close>

datatype auth = Token string | AuthTrue | AuthFalse

record EngineManager =
  engines :: "engine list"
  default_pipe :: "wref option"
  pipelines :: "string \<rightharpoonup> wref"
  activeId :: "string option"
  active :: "wref option"
  weight_root :: string
  m_mode :: EngineMode
  nsfw :: string
  token :: auth

text \<open>
  The constructor. \<open>hf\<close> is the environment variable \<open>HF_API_TOKEN\<close>, \<open>None\<close> when it
  is not set.
\<close>

definition EngineManager_init ::
  "string option \<Rightarrow> engine list \<Rightarrow> string \<Rightarrow> EngineMode \<Rightarrow> string \<Rightarrow> EngineManager" where
  "EngineManager_init hf es root md nsfw_behaviour =
     \<lparr>engines = es, default_pipe = None, pipelines = Map.empty, activeId = None,
      active = None, weight_root = root, m_mode = md, nsfw = nsfw_behaviour,
      token = (case hf of None \<Rightarrow> AuthTrue | Some s \<Rightarrow> Token s)\<rparr>"

text \<open>The four functions of \<open>os.path\<close> the manager calls; \<open>isdir\<close> reads the file system.\<close>

record os_path =
  isabs :: "string \<Rightarrow> bool"
  join :: "string \<Rightarrow> string \<Rightarrow> string"
  normpath :: "string \<Rightarrow> string"
  isdir :: "string \<Rightarrow> bool"

definition getWeightPath :: "os_path \<Rightarrow> EngineManager \<Rightarrow> string \<Rightarrow> string option \<Rightarrow> string" where
  "getWeightPath os m remote_path local_path =
     (case local_path of
        None \<Rightarrow> remote_path
      | Some lp \<Rightarrow>
          if lp = [] then remote_path
          else (let test_path = (if isabs os lp then lp else join os (weight_root m) lp);
                    test_path = normpath os test_path
                in if isdir os test_path then test_path else remote_path))"

text \<open>
  The loaders of the pipeline classes and of the safety checker, collaborators that
  return an object or fail. A safety checker is kept by reference.
\<close>

record loaders =
  FlagOnlySafetyChecker_from_pretrained :: "string \<Rightarrow> auth \<Rightarrow> error + nat"
  StableDiffusionPipeline_from_pretrained :: "string \<Rightarrow> auth \<Rightarrow> nat option \<Rightarrow> error + pipeline"
  UnifiedPipeline_from_pretrained :: "string \<Rightarrow> auth \<Rightarrow> nat option \<Rightarrow> error + pipeline"

text \<open>The constructor call \<open>PipelineWrapper(...)\<close>: the object is built and put in the store.\<close>

definition PipelineWrapper_new ::
  "torch_env \<Rightarrow> sched_ctors \<Rightarrow> string \<Rightarrow> EngineMode \<Rightarrow> pipeline \<Rightarrow> heap \<Rightarrow> wref \<times> heap" where
  "PipelineWrapper_new t c i md p h =
     (let (w, h') = PipelineWrapper_init t c i md p h
      in (length (wraps h'), h'\<lparr>wraps := wraps h' @ [w]\<rparr>))"

text \<open>
  \<open>buildPipeline\<close> returns a wrapper, or \<open>None\<close> when the class is neither of the two
  known ones (the function then ends without a \<open>return\<close>), or fails in a loader.
\<close>

definition buildPipeline ::
  "torch_env \<Rightarrow> os_path \<Rightarrow> sched_ctors \<Rightarrow> loaders \<Rightarrow> EngineManager \<Rightarrow> engine \<Rightarrow> heap \<Rightarrow>
   (error + wref option) \<times> heap" where
  "buildPipeline t os c ld m eng h =
     (let weight_path = getWeightPath os m (e_model eng) (local_model eng);
          use_auth = (if get_flag (use_auth_token eng) False then token m else AuthFalse);
          extra = (if nsfw m = ''flag''
                   then (case FlagOnlySafetyChecker_from_pretrained ld weight_path use_auth of
                           Inl e \<Rightarrow> Inl e
                         | Inr sc \<Rightarrow> Inr (Some sc))
                   else Inr None)
      in case extra of
           Inl e \<Rightarrow> (Inl e, h)
         | Inr safety_checker \<Rightarrow>
             if e_class eng = ''StableDiffusionPipeline'' then
               (case StableDiffusionPipeline_from_pretrained ld weight_path use_auth safety_checker of
                  Inl e \<Rightarrow> (Inl e, h)
                | Inr p \<Rightarrow>
                    (let (r, h') = PipelineWrapper_new t c (e_id eng) (m_mode m) p h
                     in (Inr (Some r), h')))
             else if e_class eng = ''UnifiedPipeline'' then
               (case UnifiedPipeline_from_pretrained ld weight_path use_auth safety_checker of
                  Inl e \<Rightarrow> (Inl e, h)
                | Inr p \<Rightarrow>
                    (let (r, h') = PipelineWrapper_new t c (e_id eng) (m_mode m) p h
                     in (Inr (Some r), h')))
             else (Inr None, h))"

text \<open>
  The loop of \<open>loadPipelines\<close> over the engine list. An exception leaves the manager
  as the engines before it have made it.
\<close>

fun loadPipelines_loop ::
  "torch_env \<Rightarrow> os_path \<Rightarrow> sched_ctors \<Rightarrow> loaders \<Rightarrow> engine list \<Rightarrow> EngineManager \<Rightarrow> heap \<Rightarrow>
   (error + unit) \<times> EngineManager \<times> heap" where
  "loadPipelines_loop t os c ld [] m h = (Inr (), m, h)"
| "loadPipelines_loop t os c ld (eng # rest) m h =
     (if \<not> get_flag (enabled eng) False then loadPipelines_loop t os c ld rest m h
      else
        (case buildPipeline t os c ld m eng h of
           (Inl e, h') \<Rightarrow> (Inl e, m, h')
         | (Inr None, h') \<Rightarrow>
             (Inl (Exception (''Unknown engine class '' @ [CHR 0x22] @ e_class eng @ [CHR 0x22])), m, h')
         | (Inr (Some pipe), h') \<Rightarrow>
             (let m1 = m\<lparr>pipelines := (pipelines m)(w_id (wraps h' ! pipe) \<mapsto> pipe)\<rparr>;
                  m2 = (if get_flag (e_default eng) False then m1\<lparr>default_pipe := Some pipe\<rparr> else m1)
              in loadPipelines_loop t os c ld rest m2 h')))"

definition loadPipelines ::
  "torch_env \<Rightarrow> os_path \<Rightarrow> sched_ctors \<Rightarrow> loaders \<Rightarrow> EngineManager \<Rightarrow> heap \<Rightarrow>
   (error + unit) \<times> EngineManager \<times> heap" where
  "loadPipelines t os c ld m h = loadPipelines_loop t os c ld (engines m) m h"

text \<open>
  \<open>getStatus\<close>: the dictionary comprehension, built in the order of the engine list (a
  later entry with the same key replaces an earlier one).
\<close>

definition getStatus :: "EngineManager \<Rightarrow> (string \<rightharpoonup> bool)" where
  "getStatus m =
     foldl (\<lambda>d eng. if get_flag (enabled eng) True
                     then d(e_id eng \<mapsto> (pipelines m (e_id eng) \<noteq> None))
                     else d)
           Map.empty (engines m)"

text \<open>
  \<open>getPipe\<close>. A wrapper object is truthy, so \<open>if self._active\<close> asks whether the
  pointer is not \<open>None\<close>. The lookup \<open>self._pipelines[id]\<close> raises \<open>KeyError\<close> for a
  key that is missing.
\<close>

definition getPipe ::
  "torch_env \<Rightarrow> string \<Rightarrow> EngineManager \<Rightarrow> heap \<Rightarrow> (error + wref) \<times> EngineManager \<times> heap" where
  "getPipe t i m h =
     (case active m of
        None \<Rightarrow>
          (case pipelines m i of
             None \<Rightarrow> (Inl (KeyError i), m, h)
           | Some r \<Rightarrow>
               (Inr r, m\<lparr>active := Some r\<rparr>, h\<lparr>wraps := (wraps h)[r := activate t (wraps h ! r)]\<rparr>))
      | Some a \<Rightarrow>
          if i = w_id (wraps h ! a) then (Inr a, m, h)
          else
            (let h1 = h\<lparr>wraps := (wraps h)[a := deactivate t (wraps h ! a)]\<rparr>
             in case pipelines m i of
                  None \<Rightarrow> (Inl (KeyError i), m, h1)
                | Some r \<Rightarrow>
                    (Inr r, m\<lparr>active := Some r\<rparr>,
                     h1\<lparr>wraps := (wraps h1)[r := activate t (wraps h1 ! r)]\<rparr>)))"

text \<open>
  A run of \<open>getPipe\<close> calls, each at its own moment of the runtime, the results
  dropped: a failed call leaves the state it had reached.
\<close>

fun getPipe_all :: "(torch_env \<times> string) list \<Rightarrow> EngineManager \<Rightarrow> heap \<Rightarrow> EngineManager \<times> heap" where
  "getPipe_all [] m h = (m, h)"
| "getPipe_all ((t, i) # cs) m h =
     (let (res, m', h') = getPipe t i m h in getPipe_all cs m' h')"

section \<open>The POSIX instance of os.path\<close>

text \<open>
  \<open>os.path\<close> on a POSIX system, after the standard library's \<open>posixpath\<close>, for running
  the manager on concrete paths. The file system is the predicate \<open>dirs\<close>: the paths
  that are directories.
\<close>

definition posix_isabs :: "string \<Rightarrow> bool" where
  "posix_isabs s = (take 1 s = ''/'')"

definition posix_join :: "string \<Rightarrow> string \<Rightarrow> string" where
  "posix_join a b =
     (if posix_isabs b then b
      else if a = [] \<or> last a = CHR ''/'' then a @ b
      else a @ ''/'' @ b)"

text \<open>\<open>path.split('/')\<close>.\<close>

fun split_slash :: "string \<Rightarrow> string list" where
  "split_slash [] = [[]]"
| "split_slash (c # cs) =
     (if c = CHR ''/'' then [] # split_slash cs
      else (case split_slash cs of
              [] \<Rightarrow> [[c]]
            | w # ws \<Rightarrow> (c # w) # ws))"

text \<open>\<open>'/'.join(comps)\<close>.\<close>

fun join_slash :: "string list \<Rightarrow> string" where
  "join_slash [] = []"
| "join_slash [w] = w"
| "join_slash (w # v # ws) = w @ ''/'' @ join_slash (v # ws)"

definition norm_step :: "nat \<Rightarrow> string list \<Rightarrow> string \<Rightarrow> string list" where
  "norm_step initial_slashes new_comps cmp =
     (if cmp = [] \<or> cmp = ''.'' then new_comps
      else if cmp \<noteq> ''..'' \<or> (initial_slashes = 0 \<and> new_comps = [])
                \<or> (new_comps \<noteq> [] \<and> last new_comps = ''..'')
           then new_comps @ [cmp]
      else if new_comps \<noteq> [] then butlast new_comps
      else new_comps)"

definition posix_normpath :: "string \<Rightarrow> string" where
  "posix_normpath path =
     (if path = [] then ''.''
      else (let initial_slashes =
                  (if take 1 path = ''/''
                   then (if take 2 path = ''//'' \<and> take 3 path \<noteq> ''///'' then 2 else 1)
                   else 0);
                comps = foldl (norm_step initial_slashes) [] (split_slash path);
                p = replicate initial_slashes (CHR ''/'') @ join_slash comps
            in if p = [] then ''.'' else p))"

definition posix :: "(string \<Rightarrow> bool) \<Rightarrow> os_path" where
  "posix dirs = \<lparr>isabs = posix_isabs, join = posix_join, normpath = posix_normpath, isdir = dirs\<rparr>"

section \<open>Notions the properties are stated with\<close>

text \<open>
  The weight location in the words of the design: no local path (none given, or the
  empty string) gives the remote identifier; a local path is taken relative to the
  weight root unless it is absolute, then normalised, and is the location if it is a
  directory; if it is not, the remote identifier is.
\<close>

definition resolved_local_path :: "os_path \<Rightarrow> string \<Rightarrow> string \<Rightarrow> string" where
  "resolved_local_path os root lp = normpath os (if isabs os lp then lp else join os root lp)"

definition weight_location :: "os_path \<Rightarrow> string \<Rightarrow> string \<Rightarrow> string option \<Rightarrow> string" where
  "weight_location os root remote lp =
     (if lp = None \<or> lp = Some [] then remote
      else if isdir os (resolved_local_path os root (the lp)) then resolved_local_path os root (the lp)
      else remote)"

text \<open>
  The location and the credentials \<open>buildPipeline\<close> is to use for an engine: the
  weight location of its model and local path, and the manager's token if the engine
  asks for authentication, \<open>False\<close> otherwise.
\<close>

definition engine_location :: "os_path \<Rightarrow> EngineManager \<Rightarrow> engine \<Rightarrow> string" where
  "engine_location os m eng = weight_location os (weight_root m) (e_model eng) (local_model eng)"

definition engine_auth :: "EngineManager \<Rightarrow> engine \<Rightarrow> auth" where
  "engine_auth m eng = (if get_flag (use_auth_token eng) False then token m else AuthFalse)"

text \<open>
  The registry is well formed when every identifier registered leads to a wrapper of
  the store that carries this identifier, which is how \<open>loadPipelines\<close> fills it.
\<close>

definition registry_ok :: "EngineManager \<Rightarrow> heap \<Rightarrow> bool" where
  "registry_ok m h =
     (\<forall>k r. pipelines m k = Some r \<longrightarrow> r < length (wraps h) \<and> w_id (wraps h ! r) = k)"

text \<open>
  The residency invariant: a wrapper on an accelerator is the active one, and the
  active pointer, when it is set, refers to a wrapper on an accelerator. So at most one
  wrapper is on an accelerator and every other one is on the host.
\<close>

definition single_resident :: "EngineManager \<Rightarrow> heap \<Rightarrow> bool" where
  "single_resident m h =
     ((\<forall>r < length (wraps h). accelerator_resident (wraps h ! r) \<longrightarrow> active m = Some r) \<and>
      (\<forall>a. active m = Some a \<longrightarrow> a < length (wraps h) \<and> accelerator_resident (wraps h ! a)))"

text \<open>
  The two halves of the invariant apart. \<open>resident_is_active\<close>: a wrapper on an
  accelerator is the one the active pointer refers to, so at most one wrapper is on an
  accelerator and every other wrapper is on the host. \<open>active_is_resident\<close>: the
  active pointer, when it is set, refers to a wrapper on an accelerator.
\<close>

definition resident_is_active :: "EngineManager \<Rightarrow> heap \<Rightarrow> bool" where
  "resident_is_active m h =
     (\<forall>r < length (wraps h). accelerator_resident (wraps h ! r) \<longrightarrow> active m = Some r)"

definition active_is_resident :: "EngineManager \<Rightarrow> heap \<Rightarrow> bool" where
  "active_is_resident m h =
     (\<forall>a. active m = Some a \<longrightarrow> a < length (wraps h) \<and> accelerator_resident (wraps h ! a))"

text \<open>The scheduler \<open>_prepScheduler\<close> leaves at an address, and the warnings it issues for it.\<close>

definition migrated :: "scheduler \<Rightarrow> scheduler" where
  "migrated s =
     (case internal_dict s ''steps_offset'' of
        None \<Rightarrow> set_format ''pt'' s
      | Some v \<Rightarrow>
          if py_ne v (PInt 1)
          then (set_format ''pt'' s)\<lparr>internal_dict := (internal_dict s)(''steps_offset'' \<mapsto> PInt 1)\<rparr>
          else set_format ''pt'' s)"

definition stale_warnings :: "sref \<Rightarrow> scheduler \<Rightarrow> warning list" where
  "stale_warnings r s =
     (case internal_dict s ''steps_offset'' of
        None \<Rightarrow> []
      | Some v \<Rightarrow> if py_ne v (PInt 1) then [DeprecationWarning r v] else [])"

definition warns_about :: "sref \<Rightarrow> warning \<Rightarrow> bool" where
  "warns_about r x = (case x of DeprecationWarning r' v \<Rightarrow> r' = r)"

section \<open>A concrete installation\<close>

text \<open>
  Concrete collaborators for running the model: a machine with cuda and one without,
  schedulers as the constructors build them (the DDIM one with the old offset 0),
  loaders that return a pipeline in host memory with its own scheduler at address 0,
  the sampler constants of the protocol, and two engine lists.
\<close>

definition cuda_host :: torch_env where
  "cuda_host = \<lparr>cuda_probe = Some True, mps_probe = None\<rparr>"

definition cpu_host :: torch_env where
  "cpu_host = \<lparr>cuda_probe = Some False, mps_probe = None\<rparr>"

definition built_ctors :: sched_ctors where
  "built_ctors =
     \<lparr>LMSDiscreteScheduler = \<lparr>tensor_format = ''np'', internal_dict = [''num_train_timesteps'' \<mapsto> PInt 1000]\<rparr>,
      DDIMScheduler = \<lparr>tensor_format = ''np'', internal_dict = [''steps_offset'' \<mapsto> PInt 0]\<rparr>,
      EulerDiscreteScheduler = \<lparr>tensor_format = ''np'', internal_dict = [''num_train_timesteps'' \<mapsto> PInt 1000]\<rparr>,
      EulerAncestralDiscreteScheduler = \<lparr>tensor_format = ''np'', internal_dict = [''steps_offset'' \<mapsto> PInt 1]\<rparr>\<rparr>"

definition host_pipeline :: pipeline where
  "host_pipeline =
     \<lparr>module_device = Cpu, unet_device = Cpu, module_half = False, unet_half = False,
      attention_slicing = None, scheduler = 0, progress_bar = None\<rparr>"

definition host_loaders :: loaders where
  "host_loaders =
     \<lparr>FlagOnlySafetyChecker_from_pretrained = (\<lambda>path a. Inr 0),
      StableDiffusionPipeline_from_pretrained = (\<lambda>path a sc. Inr host_pipeline),
      UnifiedPipeline_from_pretrained = (\<lambda>path a sc. Inr host_pipeline)\<rparr>"

definition start_heap :: heap where
  "start_heap =
     \<lparr>scheds = [\<lparr>tensor_format = ''pt'', internal_dict = [''steps_offset'' \<mapsto> PInt 1]\<rparr>],
      wraps = [], warnlog = []\<rparr>"

definition proto_samplers :: generation_pb2 where
  "proto_samplers =
     \<lparr>SAMPLER_DDPM = 1, SAMPLER_K_LMS = 7, SAMPLER_DDIM = 0, SAMPLER_K_EULER = 2,
      SAMPLER_K_EULER_ANCESTRAL = 3\<rparr>"

definition engine_sd :: engine where
  "engine_sd =
     \<lparr>e_id = ''sd'', e_class = ''StableDiffusionPipeline'', e_model = ''CompVis/stable-diffusion-v1-4'',
      local_model = Some ''sd14'', enabled = Some True, e_default = Some True,
      use_auth_token = Some True\<rparr>"

definition engine_uni :: engine where
  "engine_uni =
     \<lparr>e_id = ''uni'', e_class = ''UnifiedPipeline'', e_model = ''runwayml/stable-diffusion-v1-5'',
      local_model = None, enabled = Some True, e_default = None, use_auth_token = None\<rparr>"

definition weights_dirs :: "string \<Rightarrow> bool" where
  "weights_dirs path = (path = ''weights/sd14'')"

definition fresh_manager :: "engine list \<Rightarrow> EngineManager" where
  "fresh_manager es = EngineManager_init None es ''./weights'' (EngineMode_init 2 True False) ''block''"

text \<open>
  Loaders that find weights at one location only, a wrapper built on the machine with
  cuda, a request with a given sampler, and a stand-in for the model whose output tells
  which scheduler was installed when it ran.
\<close>

definition loaders_at :: "string \<Rightarrow> loaders" where
  "loaders_at location =
     \<lparr>FlagOnlySafetyChecker_from_pretrained =
        (\<lambda>path a. if path = location then Inr 0 else Inl (Upstream ''no weights'')),
      StableDiffusionPipeline_from_pretrained =
        (\<lambda>path a sc. if path = location then Inr host_pipeline else Inl (Upstream ''no weights'')),
      UnifiedPipeline_from_pretrained =
        (\<lambda>path a sc. if path = location then Inr host_pipeline else Inl (Upstream ''no weights''))\<rparr>"

text \<open>Loaders that find nothing and say where they were asked to look.\<close>

definition echo_loaders :: loaders where
  "echo_loaders =
     \<lparr>FlagOnlySafetyChecker_from_pretrained = (\<lambda>path a. Inl (Upstream path)),
      StableDiffusionPipeline_from_pretrained = (\<lambda>path a sc. Inl (Upstream path)),
      UnifiedPipeline_from_pretrained = (\<lambda>path a sc. Inl (Upstream path))\<rparr>"

definition sample_wrapper :: wrapper where
  "sample_wrapper =
     fst (PipelineWrapper_init cuda_host built_ctors ''sd'' (EngineMode_init 2 True False)
            host_pipeline start_heap)"

definition sample_request :: "int option \<Rightarrow> (int, nat) request" where
  "sample_request smp =
     \<lparr>req_text = ''a lighthouse'',
      params = \<lparr>sampler = smp, seed = 7, strength = 1, width = 512, height = 512, steps = 50,
                cfg_scale = 7, eta = 0\<rparr>,
      req_image = None, req_mask = None, req_outmask = None, negative_text = None,
      req_progress_callback = None, req_stop_event = None\<rparr>"

definition sample_forward :: "pipeline \<Rightarrow> (int, nat) pipe_call \<Rightarrow> error + nat" where
  "sample_forward p a = Inr (scheduler p)"

text \<open>
  The installation after start-up on machine \<open>t\<close> with the engine list \<open>es\<close>: the
  manager and the store \<open>loadPipelines\<close> leaves. \<open>loaders_on_host\<close> says that the
  loaders hand out pipelines that are in host memory, as loading from disk does.
\<close>

definition loaded :: "torch_env \<Rightarrow> engine list \<Rightarrow> EngineManager \<times> heap" where
  "loaded t es =
     snd (loadPipelines t (posix weights_dirs) built_ctors host_loaders (fresh_manager es) start_heap)"

definition on_host :: "pipeline \<Rightarrow> bool" where
  "on_host p = (module_device p = Cpu \<and> unet_device p = Cpu)"

definition loaders_on_host :: "loaders \<Rightarrow> bool" where
  "loaders_on_host ld =
     (\<forall>path a sc p.
        (StableDiffusionPipeline_from_pretrained ld path a sc = Inr p \<longrightarrow> on_host p) \<and>
        (UnifiedPipeline_from_pretrained ld path a sc = Inr p \<longrightarrow> on_host p))"

definition all_on_host :: "heap \<Rightarrow> bool" where
  "all_on_host h = (\<forall>r < length (wraps h). host_resident (wraps h ! r))"

text \<open>The installation after start-up and the \<open>getPipe\<close> calls \<open>cs\<close>.\<close>

definition after_calls ::
  "torch_env \<Rightarrow> engine list \<Rightarrow> (torch_env \<times> string) list \<Rightarrow> EngineManager \<times> heap" where
  "after_calls t es cs = getPipe_all cs (fst (loaded t es)) (snd (loaded t es))"

section \<open>Mode policy: half precision\<close>

text \<open>
  Claim C3. At one moment of the runtime, for every optimisation level and every
  combination of enable flags and availability, \<open>fp16\<close> and \<open>cuda_only_unet\<close> are
  never both true, and \<open>cuda_only_unet\<close> being true makes \<open>fp16\<close> false.
\<close>

theorem fp16_excludes_cuda_only_unet:
  "\<not> (fp16 t m \<and> cuda_only_unet t m) \<and> (cuda_only_unet t m \<longrightarrow> \<not> fp16 t m)"
  by (simp add: fp16_def)

theorem fp16_excludes_cuda_only_unet_witness:
  "cuda_only_unet \<lparr>cuda_probe = Some True, mps_probe = None\<rparr> (EngineMode_init 3 True False)
   \<and> \<not> fp16 \<lparr>cuda_probe = Some True, mps_probe = None\<rparr> (EngineMode_init 3 True False)"
  using fp16_excludes_cuda_only_unet [of "\<lparr>cuda_probe = Some True, mps_probe = None\<rparr>" "EngineMode_init 3 True False"]
  by (simp add: cuda_only_unet_def device_def hasCuda_def probe_ok_def EngineMode_init_def)

section \<open>Scheduler construction\<close>

lemma py_ne_one [simp]: "\<not> py_ne (PInt 1) (PInt 1)"
  by (simp add: py_ne_def)

lemma prepScheduler_new:
  "prepScheduler (length (scheds h)) (h\<lparr>scheds := scheds h @ [s]\<rparr>) =
     (length (scheds h),
      h\<lparr>scheds := scheds h @ [migrated s],
        warnlog := warnlog h @ stale_warnings (length (scheds h)) s\<rparr>)"
  by (simp add: prepScheduler_def migrated_def stale_warnings_def set_format_def Let_def
           split: option.splits)

lemma build_scheduler:
  "(case new_scheduler s h of (r, h1) \<Rightarrow> prepScheduler r h1) =
     (length (scheds h),
      h\<lparr>scheds := scheds h @ [migrated s],
        warnlog := warnlog h @ stale_warnings (length (scheds h)) s\<rparr>)"
  by (simp add: new_scheduler_def prepScheduler_new)

lemma migrated_offset:
  "internal_dict s ''steps_offset'' = Some v \<Longrightarrow> py_ne v (PInt 1) \<Longrightarrow>
   internal_dict (migrated s) ''steps_offset'' = Some (PInt 1)"
  by (simp add: migrated_def set_format_def)

lemma migrated_format: "tensor_format (migrated s) = ''pt''"
  by (simp add: migrated_def set_format_def split: option.splits)

lemma migrated_fresh:
  "internal_dict (migrated s) ''steps_offset'' = Some v \<Longrightarrow> \<not> py_ne v (PInt 1)"
  by (auto simp: migrated_def set_format_def split: option.splits if_splits)

lemma prepScheduler_migrated:
  assumes "r < length (scheds h)" "scheds h ! r = migrated s"
  shows "prepScheduler r h = (r, h)"
proof -
  have f: "set_format ''pt'' (migrated s) = migrated s"
    by (simp add: set_format_def migrated_format [symmetric])
  have u: "(scheds h)[r := migrated s] = scheds h"
    using assms by (metis list_update_id)
  have "\<And>v. internal_dict (migrated s) ''steps_offset'' = Some v \<Longrightarrow> \<not> py_ne v (PInt 1)"
    by (rule migrated_fresh)
  then show ?thesis
    using assms f u by (auto simp: prepScheduler_def Let_def split: option.splits)
qed

lemma PipelineWrapper_init_store:
  "PipelineWrapper_init t c i md p h = (w, h') \<Longrightarrow>
     klms w = length (scheds h) \<and> ddim w = length (scheds h) + 1 \<and>
     euler w = length (scheds h) + 2 \<and> eulera w = length (scheds h) + 3 \<and>
     scheds h' = scheds h @ [migrated (LMSDiscreteScheduler c), migrated (DDIMScheduler c),
                             migrated (EulerDiscreteScheduler c), migrated (EulerAncestralDiscreteScheduler c)] \<and>
     warnlog h' = warnlog h @ stale_warnings (length (scheds h)) (LMSDiscreteScheduler c)
                   @ stale_warnings (length (scheds h) + 1) (DDIMScheduler c)
                   @ stale_warnings (length (scheds h) + 2) (EulerDiscreteScheduler c)
                   @ stale_warnings (length (scheds h) + 3) (EulerAncestralDiscreteScheduler c) \<and>
     wraps h' = wraps h"
  by (auto simp: PipelineWrapper_init_def Let_def new_scheduler_def prepScheduler_new numeral_3_eq_3 numeral_2_eq_2)


lemma filter_stale_warnings:
  "filter (warns_about r) (stale_warnings r' s) = (if r' = r then stale_warnings r s else [])"
  by (simp add: stale_warnings_def warns_about_def split: option.splits)

lemma stale_warnings_stale:
  "internal_dict s ''steps_offset'' = Some v \<Longrightarrow> py_ne v (PInt 1) \<Longrightarrow>
   stale_warnings r s = [DeprecationWarning r v]"
  by (simp add: stale_warnings_def)

lemma PipelineWrapper_new_store:
  "PipelineWrapper_new t c i md p h = (r, h') \<Longrightarrow>
     r = length (wraps h) \<and> (\<exists>w. wraps h' = wraps h @ [w] \<and> w_id w = i \<and> w_mode w = md
        \<and> module_device (w_pipeline w) = module_device p \<and> unet_device (w_pipeline w) = unet_device p)"
  by (auto simp: PipelineWrapper_new_def PipelineWrapper_init_def Let_def new_scheduler_def
        prepScheduler_new pipeline_to_half_def unet_to_half_def enable_attention_slicing_def
        split: prod.splits)

lemma PipelineWrapper_new_ref:
  "fst (PipelineWrapper_new t c i md p h) = length (wraps h)"
  by (cases "PipelineWrapper_new t c i md p h") (auto dest: PipelineWrapper_new_store)

section \<open>Scheduler selection in generate\<close>

lemma select_scheduler_unrecognised:
  assumes "smp \<noteq> None" "smp \<noteq> Some (SAMPLER_DDPM pb)" "smp \<noteq> Some (SAMPLER_K_LMS pb)"
    "smp \<noteq> Some (SAMPLER_DDIM pb)" "smp \<noteq> Some (SAMPLER_K_EULER pb)"
    "smp \<noteq> Some (SAMPLER_K_EULER_ANCESTRAL pb)"
  shows "select_scheduler pb w smp = Inl (NotImplementedError ''Scheduler not implemented'')"
  using assms by (simp add: select_scheduler_def)

lemma generate_keeps_schedulers:
  "plms (snd (generate pb forward t w rq)) = plms w \<and>
   klms (snd (generate pb forward t w rq)) = klms w \<and>
   ddim (snd (generate pb forward t w rq)) = ddim w \<and>
   euler (snd (generate pb forward t w rq)) = euler w \<and>
   eulera (snd (generate pb forward t w rq)) = eulera w"
  by (simp add: generate_def Let_def split: sum.splits)


lemma generate_all_keeps_schedulers:
  "plms (generate_all pb forward t w rqs) = plms w \<and>
   klms (generate_all pb forward t w rqs) = klms w \<and>
   ddim (generate_all pb forward t w rqs) = ddim w \<and>
   euler (generate_all pb forward t w rqs) = euler w \<and>
   eulera (generate_all pb forward t w rqs) = eulera w"
proof (induction rqs arbitrary: w)
  case Nil
  show ?case by simp
next
  case (Cons rq rqs)
  show ?case
    using Cons.IH [of "snd (generate pb forward t w rq)"] generate_keeps_schedulers [of pb forward t w rq]
    by simp
qed

lemma generate_installs:
  "select_scheduler pb w (sampler (params rq)) = Inr s \<Longrightarrow>
   scheduler (w_pipeline (snd (generate pb forward t w rq))) = s"
  by (simp add: generate_def Let_def)

lemma PipelineWrapper_init_plms:
  "plms (fst (PipelineWrapper_init t c i md p h)) = scheduler p"
  by (simp add: PipelineWrapper_init_def Let_def split: prod.splits)

text \<open>
  Claim C4. A call of \<open>generate\<close> whose sampler is none of the five values known
  fails with the error "Scheduler not implemented", whatever the model would compute,
  and leaves the wrapper as it was: no scheduler and no progress bar is installed. A
  sampler that is unset or the default value selects the reference \<open>plms\<close> of the
  wrapper: the call installs it with a new progress bar and returns what the model
  returns on the pipeline so prepared. In a wrapper built by the constructor this
  reference is the scheduler the pipeline came with, also after other calls of
  \<open>generate\<close>.
\<close>

theorem unsupported_sampler_rejected:
  "(sampler (params rq) \<notin> {None, Some (SAMPLER_DDPM pb), Some (SAMPLER_K_LMS pb),
        Some (SAMPLER_DDIM pb), Some (SAMPLER_K_EULER pb), Some (SAMPLER_K_EULER_ANCESTRAL pb)}
      \<longrightarrow> generate pb forward t w rq = (Inl (NotImplementedError ''Scheduler not implemented''), w))
   \<and> (sampler (params rq) \<in> {None, Some (SAMPLER_DDPM pb)}
      \<longrightarrow> select_scheduler pb w (sampler (params rq)) = Inr (plms w)
        \<and> snd (generate pb forward t w rq)
            = w\<lparr>w_pipeline := (w_pipeline w)\<lparr>scheduler := plms w,
                   progress_bar := Some (ProgressBarWrapper_init (req_progress_callback rq) (req_stop_event rq))\<rparr>\<rparr>
        \<and> (\<exists>a. fst (generate pb forward t w rq) = forward (w_pipeline (snd (generate pb forward t w rq))) a))
   \<and> plms (generate_all pb forward' t' (fst (PipelineWrapper_init t0 c i md p h)) rqs) = scheduler p
   \<and> (sampler (params rq) \<in> {None, Some (SAMPLER_DDPM pb)}
      \<longrightarrow> scheduler (w_pipeline (snd (generate pb forward t
              (generate_all pb forward' t' (fst (PipelineWrapper_init t0 c i md p h)) rqs) rq)))
            = scheduler p)"
proof -
  let ?wi = "fst (PipelineWrapper_init t0 c i md p h)"
  let ?w = "generate_all pb forward' t' ?wi rqs"
  have 1: "sampler (params rq) \<notin> {None, Some (SAMPLER_DDPM pb), Some (SAMPLER_K_LMS pb),
        Some (SAMPLER_DDIM pb), Some (SAMPLER_K_EULER pb), Some (SAMPLER_K_EULER_ANCESTRAL pb)}
      \<longrightarrow> generate pb forward t w rq = (Inl (NotImplementedError ''Scheduler not implemented''), w)"
  proof
    assume "sampler (params rq) \<notin> {None, Some (SAMPLER_DDPM pb), Some (SAMPLER_K_LMS pb),
        Some (SAMPLER_DDIM pb), Some (SAMPLER_K_EULER pb), Some (SAMPLER_K_EULER_ANCESTRAL pb)}"
    then have "select_scheduler pb w (sampler (params rq)) = Inl (NotImplementedError ''Scheduler not implemented'')"
      by (intro select_scheduler_unrecognised) auto
    then show "generate pb forward t w rq = (Inl (NotImplementedError ''Scheduler not implemented''), w)"
      by (simp add: generate_def Let_def)
  qed
  have sel: "\<And>v. sampler (params rq) \<in> {None, Some (SAMPLER_DDPM pb)} \<Longrightarrow>
      select_scheduler pb v (sampler (params rq)) = Inr (plms v)"
    by (auto simp: select_scheduler_def)
  have 2: "sampler (params rq) \<in> {None, Some (SAMPLER_DDPM pb)}
      \<longrightarrow> select_scheduler pb w (sampler (params rq)) = Inr (plms w)
        \<and> snd (generate pb forward t w rq)
            = w\<lparr>w_pipeline := (w_pipeline w)\<lparr>scheduler := plms w,
                   progress_bar := Some (ProgressBarWrapper_init (req_progress_callback rq) (req_stop_event rq))\<rparr>\<rparr>
        \<and> (\<exists>a. fst (generate pb forward t w rq) = forward (w_pipeline (snd (generate pb forward t w rq))) a)"
  proof
    assume a: "sampler (params rq) \<in> {None, Some (SAMPLER_DDPM pb)}"
    note s = sel [OF a, of w]
    have b: "snd (generate pb forward t w rq)
            = w\<lparr>w_pipeline := (w_pipeline w)\<lparr>scheduler := plms w,
                   progress_bar := Some (ProgressBarWrapper_init (req_progress_callback rq) (req_stop_event rq))\<rparr>\<rparr>"
      by (simp add: generate_def Let_def s)
    have c: "\<exists>a. fst (generate pb forward t w rq) = forward (w_pipeline (snd (generate pb forward t w rq))) a"
      unfolding b by (simp add: generate_def Let_def s) blast
    from s b c show "select_scheduler pb w (sampler (params rq)) = Inr (plms w)
        \<and> snd (generate pb forward t w rq)
            = w\<lparr>w_pipeline := (w_pipeline w)\<lparr>scheduler := plms w,
                   progress_bar := Some (ProgressBarWrapper_init (req_progress_callback rq) (req_stop_event rq))\<rparr>\<rparr>
        \<and> (\<exists>a. fst (generate pb forward t w rq) = forward (w_pipeline (snd (generate pb forward t w rq))) a)"
      by blast
  qed
  have 3: "plms ?w = scheduler p"
    using generate_all_keeps_schedulers [of pb forward' t' ?wi rqs] PipelineWrapper_init_plms [of t0 c i md p h]
    by simp
  have 4: "sampler (params rq) \<in> {None, Some (SAMPLER_DDPM pb)}
      \<longrightarrow> scheduler (w_pipeline (snd (generate pb forward t ?w rq))) = scheduler p"
  proof
    assume a: "sampler (params rq) \<in> {None, Some (SAMPLER_DDPM pb)}"
    from sel [OF a, of ?w] have "scheduler (w_pipeline (snd (generate pb forward t ?w rq))) = plms ?w"
      by (rule generate_installs)
    with 3 show "scheduler (w_pipeline (snd (generate pb forward t ?w rq))) = scheduler p" by simp
  qed
  from 1 2 3 4 show ?thesis by blast
qed

theorem unsupported_sampler_rejected_witness:
  "generate proto_samplers sample_forward cuda_host sample_wrapper (sample_request (Some 9))
     = (Inl (NotImplementedError ''Scheduler not implemented''), sample_wrapper)
   \<and> select_scheduler proto_samplers sample_wrapper None = Inr 0
   \<and> generate proto_samplers sample_forward cuda_host
        (generate_all proto_samplers sample_forward cuda_host sample_wrapper [sample_request (Some 7)])
        (sample_request None)
      = (Inr 0, (generate_all proto_samplers sample_forward cuda_host sample_wrapper [sample_request (Some 7)])
           \<lparr>w_pipeline := (w_pipeline (generate_all proto_samplers sample_forward cuda_host sample_wrapper [sample_request (Some 7)]))
               \<lparr>scheduler := 0, progress_bar := Some (ProgressBarWrapper_init None None)\<rparr>\<rparr>)"
proof -
  let ?w = "generate_all proto_samplers sample_forward cuda_host sample_wrapper [sample_request (Some 7)]"
  note a = unsupported_sampler_rejected [where rq = "sample_request (Some 9)" and pb = proto_samplers
            and forward = sample_forward and t = cuda_host and forward' = sample_forward
            and t' = cuda_host and ?t0.0 = cuda_host and c = built_ctors and i = "''sd''"
            and md = "EngineMode_init 2 True False" and p = host_pipeline and h = start_heap
            and rqs = "[]" and w = sample_wrapper]
  note b = unsupported_sampler_rejected [where rq = "sample_request None" and pb = proto_samplers
            and forward = sample_forward and t = cuda_host and forward' = sample_forward
            and t' = cuda_host and ?t0.0 = cuda_host and c = built_ctors and i = "''sd''"
            and md = "EngineMode_init 2 True False" and p = host_pipeline and h = start_heap
            and rqs = "[sample_request (Some 7)]" and w = ?w]
  note c = unsupported_sampler_rejected [where rq = "sample_request None" and pb = proto_samplers
            and forward = sample_forward and t = cuda_host and forward' = sample_forward
            and t' = cuda_host and ?t0.0 = cuda_host and c = built_ctors and i = "''sd''"
            and md = "EngineMode_init 2 True False" and p = host_pipeline and h = start_heap
            and rqs = "[]" and w = sample_wrapper]
  have r: "sampler (params (sample_request (Some 9))) = Some 9" "sampler (params (sample_request None)) = None"
    "req_progress_callback (sample_request None) = None" "req_stop_event (sample_request None) = None"
    by (simp_all add: sample_request_def)
  have p0: "plms ?w = 0" using b by (simp add: sample_wrapper_def host_pipeline_def)
  have p1: "plms sample_wrapper = 0" using c by (simp add: sample_wrapper_def host_pipeline_def)
  have 1: "generate proto_samplers sample_forward cuda_host sample_wrapper (sample_request (Some 9))
     = (Inl (NotImplementedError ''Scheduler not implemented''), sample_wrapper)"
    using a by (simp add: r proto_samplers_def)
  have 2: "select_scheduler proto_samplers sample_wrapper None = Inr 0"
    using c by (simp add: r p1)
  have s: "snd (generate proto_samplers sample_forward cuda_host ?w (sample_request None))
      = ?w\<lparr>w_pipeline := (w_pipeline ?w)\<lparr>scheduler := 0, progress_bar := Some (ProgressBarWrapper_init None None)\<rparr>\<rparr>"
  proof -
    have "snd (generate proto_samplers sample_forward cuda_host ?w (sample_request None))
      = ?w\<lparr>w_pipeline := (w_pipeline ?w)\<lparr>scheduler := plms ?w, progress_bar := Some (ProgressBarWrapper_init None None)\<rparr>\<rparr>"
      using b by (simp add: r)
    then show ?thesis by (simp only: p0)
  qed
  have f: "fst (generate proto_samplers sample_forward cuda_host ?w (sample_request None)) = Inr 0"
    using b unfolding s by (auto simp: r sample_forward_def)
  from 1 2 s f show ?thesis by (simp add: prod_eq_iff)
qed



text \<open>
  Claim C6. A scheduler built in the construction of a wrapper whose configuration has
  a \<open>steps_offset\<close> other than 1 has it rewritten to 1 there, with exactly one
  deprecation warning for it. The migration applied again changes nothing and warns of
  nothing, and calls of \<open>generate\<close> select among the same scheduler objects, which
  they do not write.
\<close>

theorem steps_offset_migrated_once:
  assumes init: "PipelineWrapper_init t c i md p h = (w, h')"
      and built: "(r, s) \<in> {(klms w, LMSDiscreteScheduler c), (ddim w, DDIMScheduler c),
                         (euler w, EulerDiscreteScheduler c),
                         (eulera w, EulerAncestralDiscreteScheduler c)}"
      and old: "internal_dict s ''steps_offset'' = Some v"
      and stale: "py_ne v (PInt 1)"
  shows "internal_dict (scheds h' ! r) ''steps_offset'' = Some (PInt 1)
       \<and> filter (warns_about r) (drop (length (warnlog h)) (warnlog h')) = [DeprecationWarning r v]
       \<and> prepScheduler r h' = (r, h')
       \<and> select_scheduler pb (generate_all pb forward t' w rqs) smp = select_scheduler pb w smp"
proof -
  note st = PipelineWrapper_init_store [OF init]
  let ?n = "length (scheds h)"
  have cell: "r < length (scheds h') \<and> scheds h' ! r = migrated s"
    using built st by (auto simp: nth_append)
  have one: "internal_dict (scheds h' ! r) ''steps_offset'' = Some (PInt 1)"
    using cell migrated_offset [OF old stale] by simp
  have w: "filter (warns_about r) (drop (length (warnlog h)) (warnlog h')) = stale_warnings r s"
    using built st by (auto simp: filter_stale_warnings)
  have again: "prepScheduler r h' = (r, h')"
    using cell prepScheduler_migrated by blast
  have keep: "select_scheduler pb (generate_all pb forward t' w rqs) smp = select_scheduler pb w smp"
    using generate_all_keeps_schedulers [of pb forward t' w rqs] by (simp add: select_scheduler_def)
  from one w again keep stale_warnings_stale [OF old stale] show ?thesis by simp
qed

theorem steps_offset_migrated_once_witness:
  "let (w, h') = PipelineWrapper_init cuda_host built_ctors ''sd'' (EngineMode_init 2 True False) host_pipeline start_heap
   in ddim w = 2 \<and> internal_dict (DDIMScheduler built_ctors) ''steps_offset'' = Some (PInt 0)
    \<and> py_ne (PInt 0) (PInt 1)
    \<and> internal_dict (scheds h' ! 2) ''steps_offset'' = Some (PInt 1)
    \<and> warnlog h' = [DeprecationWarning 2 (PInt 0)]
    \<and> prepScheduler 2 h' = (2, h')"
proof -
  obtain w h' where i: "PipelineWrapper_init cuda_host built_ctors ''sd'' (EngineMode_init 2 True False) host_pipeline start_heap = (w, h')"
    by force
  have d: "ddim w = 2" and l: "warnlog h' = [DeprecationWarning 2 (PInt 0)]"
    using PipelineWrapper_init_store [OF i]
    by (simp_all add: start_heap_def built_ctors_def stale_warnings_def py_ne_def)
  have o: "internal_dict (DDIMScheduler built_ctors) ''steps_offset'' = Some (PInt 0)"
    by (simp add: built_ctors_def)
  have s: "py_ne (PInt 0) (PInt 1)" by (simp add: py_ne_def)
  have b: "(2, DDIMScheduler built_ctors) \<in> {(klms w, LMSDiscreteScheduler built_ctors), (ddim w, DDIMScheduler built_ctors),
                         (euler w, EulerDiscreteScheduler built_ctors),
                         (eulera w, EulerAncestralDiscreteScheduler built_ctors)}"
    using d by simp
  from steps_offset_migrated_once [OF i b o s, where pb = proto_samplers and forward = sample_forward
      and t' = cuda_host and rqs = "[]" and smp = None] i d l o s show ?thesis by simp
qed

section \<open>Weight location\<close>

lemma getWeightPath_location:
  "getWeightPath os m remote lp = weight_location os (weight_root m) remote lp"
  by (cases lp) (simp_all add: getWeightPath_def weight_location_def resolved_local_path_def Let_def)

lemma buildPipeline_at_location:
  assumes sc: "(nsfw m \<noteq> ''flag'' \<and> sc = None) \<or>
               (nsfw m = ''flag'' \<and> FlagOnlySafetyChecker_from_pretrained ld (engine_location os m eng) (engine_auth m eng) = Inr k \<and> sc = Some k)"
  shows "(e_class eng = ''StableDiffusionPipeline'' \<longrightarrow>
            buildPipeline t os c ld m eng h =
              (case StableDiffusionPipeline_from_pretrained ld (engine_location os m eng) (engine_auth m eng) sc of
                 Inl e \<Rightarrow> (Inl e, h)
               | Inr p \<Rightarrow> (Inr (Some (length (wraps h))),
                            snd (PipelineWrapper_new t c (e_id eng) (m_mode m) p h))))
       \<and> (e_class eng = ''UnifiedPipeline'' \<longrightarrow>
            buildPipeline t os c ld m eng h =
              (case UnifiedPipeline_from_pretrained ld (engine_location os m eng) (engine_auth m eng) sc of
                 Inl e \<Rightarrow> (Inl e, h)
               | Inr p \<Rightarrow> (Inr (Some (length (wraps h))),
                            snd (PipelineWrapper_new t c (e_id eng) (m_mode m) p h))))"
proof -
  have p: "getWeightPath os m (e_model eng) (local_model eng) = engine_location os m eng"
    by (simp add: engine_location_def getWeightPath_location)
  have a: "(if get_flag (use_auth_token eng) False then token m else AuthFalse) = engine_auth m eng"
    by (simp add: engine_auth_def)
  have new: "\<And>p. (case PipelineWrapper_new t c (e_id eng) (m_mode m) p h of (r, h') \<Rightarrow> (Inr (Some r), h'))
      = (Inr (Some (length (wraps h))) :: error + wref option, snd (PipelineWrapper_new t c (e_id eng) (m_mode m) p h))"
  proof -
    fix p
    obtain r h' where n: "PipelineWrapper_new t c (e_id eng) (m_mode m) p h = (r, h')" by force
    with PipelineWrapper_new_ref [of t c "e_id eng" "m_mode m" p h] have "r = length (wraps h)" by simp
    with n show "(case PipelineWrapper_new t c (e_id eng) (m_mode m) p h of (r, h') \<Rightarrow> (Inr (Some r), h'))
      = (Inr (Some (length (wraps h))) :: error + wref option, snd (PipelineWrapper_new t c (e_id eng) (m_mode m) p h))"
      by simp
  qed
  have extra: "(if nsfw m = ''flag''
                then (case FlagOnlySafetyChecker_from_pretrained ld (engine_location os m eng) (engine_auth m eng) of
                        Inl e \<Rightarrow> Inl e | Inr sc \<Rightarrow> Inr (Some sc))
                else Inr None) = (Inr sc :: error + nat option)"
    using sc by auto
  show ?thesis
    unfolding buildPipeline_def Let_def p a extra new by simp
qed

lemma buildPipeline_checker_fails:
  assumes "nsfw m = ''flag''"
      and "FlagOnlySafetyChecker_from_pretrained ld (engine_location os m eng) (engine_auth m eng) = Inl e"
  shows "buildPipeline t os c ld m eng h = (Inl e, h)"
proof -
  have p: "getWeightPath os m (e_model eng) (local_model eng) = engine_location os m eng"
    by (simp add: engine_location_def getWeightPath_location)
  have a: "(if get_flag (use_auth_token eng) False then token m else AuthFalse) = engine_auth m eng"
    by (simp add: engine_auth_def)
  show ?thesis
    unfolding buildPipeline_def Let_def p a using assms by simp
qed

lemma flag_manager_fields:
  "weight_root ((fresh_manager [])\<lparr>nsfw := ''flag''\<rparr>) = ''./weights''"
  "nsfw ((fresh_manager [])\<lparr>nsfw := ''flag''\<rparr>) = ''flag''"
  "m_mode ((fresh_manager [])\<lparr>nsfw := ''flag''\<rparr>) = EngineMode_init 2 True False"
  by (simp_all add: fresh_manager_def EngineManager_init_def)

text \<open>
  Claim C7. The path \<open>buildPipeline\<close> loads from is the weight location of the
  design: a local path, taken relative to the weight root unless absolute and then
  normalised, if it is an existing directory; the remote identifier if no local path
  is given (a local path that is the empty string counts as none) or the directory
  does not exist. \<open>buildPipeline\<close> asks the safety checker's loader (under the
  policy "flag") and the loader of the engine's class at this location, with the
  engine's credentials, builds the wrapper from the pipeline loaded there, passes a
  loader's failure on, and asks the loaders nowhere else.
\<close>

theorem weight_path_resolution:
  "getWeightPath os m remote lp = weight_location os (weight_root m) remote lp
   \<and> ((nsfw m \<noteq> ''flag'' \<and> sc = None) \<or>
       (nsfw m = ''flag'' \<and> sc = Some k \<and>
        FlagOnlySafetyChecker_from_pretrained ld1 (engine_location os m eng) (engine_auth m eng) = Inr k)
      \<longrightarrow> (e_class eng = ''StableDiffusionPipeline'' \<longrightarrow>
             buildPipeline t os c ld1 m eng h =
               (case StableDiffusionPipeline_from_pretrained ld1 (engine_location os m eng) (engine_auth m eng) sc of
                  Inl e \<Rightarrow> (Inl e, h)
                | Inr p \<Rightarrow> (Inr (Some (length (wraps h))),
                             snd (PipelineWrapper_new t c (e_id eng) (m_mode m) p h))))
        \<and> (e_class eng = ''UnifiedPipeline'' \<longrightarrow>
             buildPipeline t os c ld1 m eng h =
               (case UnifiedPipeline_from_pretrained ld1 (engine_location os m eng) (engine_auth m eng) sc of
                  Inl e \<Rightarrow> (Inl e, h)
                | Inr p \<Rightarrow> (Inr (Some (length (wraps h))),
                             snd (PipelineWrapper_new t c (e_id eng) (m_mode m) p h)))))
   \<and> (nsfw m = ''flag'' \<and>
       FlagOnlySafetyChecker_from_pretrained ld1 (engine_location os m eng) (engine_auth m eng) = Inl e
      \<longrightarrow> buildPipeline t os c ld1 m eng h = (Inl e, h))
   \<and> ((\<forall>a sf. FlagOnlySafetyChecker_from_pretrained ld1 (weight_location os (weight_root m) (e_model eng) (local_model eng)) a
               = FlagOnlySafetyChecker_from_pretrained ld2 (weight_location os (weight_root m) (e_model eng) (local_model eng)) a
            \<and> StableDiffusionPipeline_from_pretrained ld1 (weight_location os (weight_root m) (e_model eng) (local_model eng)) a sf
               = StableDiffusionPipeline_from_pretrained ld2 (weight_location os (weight_root m) (e_model eng) (local_model eng)) a sf
            \<and> UnifiedPipeline_from_pretrained ld1 (weight_location os (weight_root m) (e_model eng) (local_model eng)) a sf
               = UnifiedPipeline_from_pretrained ld2 (weight_location os (weight_root m) (e_model eng) (local_model eng)) a sf)
        \<longrightarrow> buildPipeline t os c ld1 m eng h = buildPipeline t os c ld2 m eng h)"
proof (intro conjI impI)
  show "getWeightPath os m remote lp = weight_location os (weight_root m) remote lp"
    by (rule getWeightPath_location)
next
  assume a: "(nsfw m \<noteq> ''flag'' \<and> sc = None) \<or>
       (nsfw m = ''flag'' \<and> sc = Some k \<and>
        FlagOnlySafetyChecker_from_pretrained ld1 (engine_location os m eng) (engine_auth m eng) = Inr k)"
     and b: "e_class eng = ''StableDiffusionPipeline''"
  from a have "(nsfw m \<noteq> ''flag'' \<and> sc = None) \<or>
               (nsfw m = ''flag'' \<and> FlagOnlySafetyChecker_from_pretrained ld1 (engine_location os m eng) (engine_auth m eng) = Inr k \<and> sc = Some k)"
    by blast
  from buildPipeline_at_location [OF this, of t c h] b
  show "buildPipeline t os c ld1 m eng h =
               (case StableDiffusionPipeline_from_pretrained ld1 (engine_location os m eng) (engine_auth m eng) sc of
                  Inl e \<Rightarrow> (Inl e, h)
                | Inr p \<Rightarrow> (Inr (Some (length (wraps h))),
                             snd (PipelineWrapper_new t c (e_id eng) (m_mode m) p h)))"
    by blast
next
  assume a: "(nsfw m \<noteq> ''flag'' \<and> sc = None) \<or>
       (nsfw m = ''flag'' \<and> sc = Some k \<and>
        FlagOnlySafetyChecker_from_pretrained ld1 (engine_location os m eng) (engine_auth m eng) = Inr k)"
     and b: "e_class eng = ''UnifiedPipeline''"
  from a have "(nsfw m \<noteq> ''flag'' \<and> sc = None) \<or>
               (nsfw m = ''flag'' \<and> FlagOnlySafetyChecker_from_pretrained ld1 (engine_location os m eng) (engine_auth m eng) = Inr k \<and> sc = Some k)"
    by blast
  from buildPipeline_at_location [OF this, of t c h] b
  show "buildPipeline t os c ld1 m eng h =
               (case UnifiedPipeline_from_pretrained ld1 (engine_location os m eng) (engine_auth m eng) sc of
                  Inl e \<Rightarrow> (Inl e, h)
                | Inr p \<Rightarrow> (Inr (Some (length (wraps h))),
                             snd (PipelineWrapper_new t c (e_id eng) (m_mode m) p h)))"
    by blast
next
  assume "nsfw m = ''flag'' \<and>
       FlagOnlySafetyChecker_from_pretrained ld1 (engine_location os m eng) (engine_auth m eng) = Inl e"
  then show "buildPipeline t os c ld1 m eng h = (Inl e, h)"
    using buildPipeline_checker_fails by blast
next
  let ?wl = "weight_location os (weight_root m) (e_model eng) (local_model eng)"
  assume same: "\<forall>a sc. FlagOnlySafetyChecker_from_pretrained ld1 ?wl a = FlagOnlySafetyChecker_from_pretrained ld2 ?wl a
            \<and> StableDiffusionPipeline_from_pretrained ld1 ?wl a sc = StableDiffusionPipeline_from_pretrained ld2 ?wl a sc
            \<and> UnifiedPipeline_from_pretrained ld1 ?wl a sc = UnifiedPipeline_from_pretrained ld2 ?wl a sc"
  have p: "getWeightPath os m (e_model eng) (local_model eng) = ?wl"
    by (rule getWeightPath_location)
  from same have f: "\<And>a. FlagOnlySafetyChecker_from_pretrained ld1 ?wl a = FlagOnlySafetyChecker_from_pretrained ld2 ?wl a"
    and s: "\<And>a sc. StableDiffusionPipeline_from_pretrained ld1 ?wl a sc = StableDiffusionPipeline_from_pretrained ld2 ?wl a sc"
    and u: "\<And>a sc. UnifiedPipeline_from_pretrained ld1 ?wl a sc = UnifiedPipeline_from_pretrained ld2 ?wl a sc"
    by blast+
  show "buildPipeline t os c ld1 m eng h = buildPipeline t os c ld2 m eng h"
    unfolding buildPipeline_def p Let_def f s u by (rule refl)
qed

theorem weight_path_resolution_witness:
  "getWeightPath (posix weights_dirs) (fresh_manager []) ''CompVis/stable-diffusion-v1-4'' (Some ''sd14'')
     = ''weights/sd14''
   \<and> getWeightPath (posix weights_dirs) (fresh_manager []) ''CompVis/stable-diffusion-v1-4'' (Some ''sd15'')
     = ''CompVis/stable-diffusion-v1-4''
   \<and> getWeightPath (posix weights_dirs) (fresh_manager []) ''CompVis/stable-diffusion-v1-4'' None
     = ''CompVis/stable-diffusion-v1-4''
   \<and> buildPipeline cuda_host (posix weights_dirs) built_ctors echo_loaders (fresh_manager []) engine_sd start_heap
     = (Inl (Upstream ''weights/sd14''), start_heap)
   \<and> buildPipeline cuda_host (posix weights_dirs) built_ctors echo_loaders (fresh_manager []) engine_uni start_heap
     = (Inl (Upstream ''runwayml/stable-diffusion-v1-5''), start_heap)
   \<and> buildPipeline cuda_host (posix weights_dirs) built_ctors host_loaders (fresh_manager []) engine_sd start_heap
     = buildPipeline cuda_host (posix weights_dirs) built_ctors (loaders_at ''weights/sd14'') (fresh_manager []) engine_sd start_heap
   \<and> buildPipeline cuda_host (posix weights_dirs) built_ctors echo_loaders
       ((fresh_manager [])\<lparr>nsfw := ''flag''\<rparr>) engine_uni start_heap
     = (Inl (Upstream ''runwayml/stable-diffusion-v1-5''), start_heap)
   \<and> buildPipeline cuda_host (posix weights_dirs) built_ctors host_loaders
       ((fresh_manager [])\<lparr>nsfw := ''flag''\<rparr>) engine_uni start_heap
     = (Inr (Some 0), snd (PipelineWrapper_new cuda_host built_ctors ''uni''
                             (EngineMode_init 2 True False) host_pipeline start_heap))"
proof -
  have n1: "posix_normpath ''./weights/sd14'' = ''weights/sd14''"
    by (simp add: posix_normpath_def norm_step_def Let_def)
  have n2: "posix_normpath ''./weights/sd15'' = ''weights/sd15''"
    by (simp add: posix_normpath_def norm_step_def Let_def)
  have j: "posix_join ''./weights'' ''sd14'' = ''./weights/sd14''" "posix_join ''./weights'' ''sd15'' = ''./weights/sd15''"
    by (simp_all add: posix_join_def posix_isabs_def)
  have a: "\<not> posix_isabs ''sd14''" "\<not> posix_isabs ''sd15''"
    by (simp_all add: posix_isabs_def)
  have w1: "weight_location (posix weights_dirs) ''./weights'' ''CompVis/stable-diffusion-v1-4'' (Some ''sd14'') = ''weights/sd14''"
    by (simp add: weight_location_def resolved_local_path_def posix_def n1 j a weights_dirs_def)
  have w2: "weight_location (posix weights_dirs) ''./weights'' ''CompVis/stable-diffusion-v1-4'' (Some ''sd15'') = ''CompVis/stable-diffusion-v1-4''"
    by (simp add: weight_location_def resolved_local_path_def posix_def n2 j a weights_dirs_def)
  have w3: "weight_location (posix weights_dirs) ''./weights'' ''CompVis/stable-diffusion-v1-4'' None = ''CompVis/stable-diffusion-v1-4''"
    by (simp add: weight_location_def)
  have r: "weight_root (fresh_manager []) = ''./weights''" "nsfw (fresh_manager []) = ''block''"
    by (simp_all add: fresh_manager_def EngineManager_init_def)
  have e: "e_model engine_sd = ''CompVis/stable-diffusion-v1-4''" "local_model engine_sd = Some ''sd14''"
    "e_class engine_sd = ''StableDiffusionPipeline''"
    by (simp_all add: engine_sd_def)
  have u: "e_model engine_uni = ''runwayml/stable-diffusion-v1-5''" "local_model engine_uni = None"
    "e_class engine_uni = ''UnifiedPipeline''"
    by (simp_all add: engine_uni_def)
  have l1: "engine_location (posix weights_dirs) (fresh_manager []) engine_sd = ''weights/sd14''"
    by (simp add: engine_location_def r e w1)
  have l2: "engine_location (posix weights_dirs) (fresh_manager []) engine_uni = ''runwayml/stable-diffusion-v1-5''"
    by (simp add: engine_location_def r u weight_location_def)
  note th = weight_path_resolution [where os = "posix weights_dirs" and m = "fresh_manager []"
      and remote = "''CompVis/stable-diffusion-v1-4''" and t = cuda_host
      and c = built_ctors and h = start_heap and sc = None and k = 0 and e = "Upstream []"]
  note sd = th [where ?ld1.0 = host_loaders and ?ld2.0 = "loaders_at ''weights/sd14''" and eng = engine_sd]
  note es = th [where ?ld1.0 = echo_loaders and ?ld2.0 = echo_loaders and eng = engine_sd and lp = None]
  note eu = th [where ?ld1.0 = echo_loaders and ?ld2.0 = echo_loaders and eng = engine_uni and lp = None]
  have g1: "getWeightPath (posix weights_dirs) (fresh_manager []) ''CompVis/stable-diffusion-v1-4'' (Some ''sd14'') = ''weights/sd14''"
    using sd [where lp = "Some ''sd14''"] by (simp add: r w1)
  have g2: "getWeightPath (posix weights_dirs) (fresh_manager []) ''CompVis/stable-diffusion-v1-4'' (Some ''sd15'') = ''CompVis/stable-diffusion-v1-4''"
    using sd [where lp = "Some ''sd15''"] by (simp add: r w2)
  have g3: "getWeightPath (posix weights_dirs) (fresh_manager []) ''CompVis/stable-diffusion-v1-4'' None = ''CompVis/stable-diffusion-v1-4''"
    using sd [where lp = None] by (simp add: r w3)
  have b1: "buildPipeline cuda_host (posix weights_dirs) built_ctors echo_loaders (fresh_manager []) engine_sd start_heap
     = (Inl (Upstream ''weights/sd14''), start_heap)"
    using es by (simp add: r e l1 echo_loaders_def)
  have b2: "buildPipeline cuda_host (posix weights_dirs) built_ctors echo_loaders (fresh_manager []) engine_uni start_heap
     = (Inl (Upstream ''runwayml/stable-diffusion-v1-5''), start_heap)"
    using eu by (simp add: r u l2 echo_loaders_def)
  have b3: "buildPipeline cuda_host (posix weights_dirs) built_ctors host_loaders (fresh_manager []) engine_sd start_heap
     = buildPipeline cuda_host (posix weights_dirs) built_ctors (loaders_at ''weights/sd14'') (fresh_manager []) engine_sd start_heap"
    using sd [where lp = None, THEN conjunct2, THEN conjunct2, THEN conjunct2]
    by (simp add: r e w1 host_loaders_def loaders_at_def)
  let ?fm = "(fresh_manager [])\<lparr>nsfw := ''flag''\<rparr>"
  have uf: "e_model engine_uni = ''runwayml/stable-diffusion-v1-5''" "local_model engine_uni = None"
    "e_class engine_uni = ''UnifiedPipeline''" "e_id engine_uni = ''uni''"
    by (simp_all add: engine_uni_def)
  have lf: "engine_location (posix weights_dirs) ?fm engine_uni = ''runwayml/stable-diffusion-v1-5''"
    by (simp add: engine_location_def uf weight_location_def)
  note tf = weight_path_resolution [where os = "posix weights_dirs" and m = ?fm
      and remote = "''CompVis/stable-diffusion-v1-4''" and lp = None and t = cuda_host
      and c = built_ctors and h = start_heap and eng = engine_uni and k = 0]
  have f1: "buildPipeline cuda_host (posix weights_dirs) built_ctors echo_loaders ?fm engine_uni start_heap
     = (Inl (Upstream ''runwayml/stable-diffusion-v1-5''), start_heap)"
    using tf [where ?ld1.0 = echo_loaders and ?ld2.0 = echo_loaders and sc = None
                and e = "Upstream ''runwayml/stable-diffusion-v1-5''",
              THEN conjunct2, THEN conjunct2, THEN conjunct1]
    by (simp add: flag_manager_fields lf echo_loaders_def)
  have f2: "buildPipeline cuda_host (posix weights_dirs) built_ctors host_loaders ?fm engine_uni start_heap
     = (Inr (Some 0), snd (PipelineWrapper_new cuda_host built_ctors ''uni''
                             (EngineMode_init 2 True False) host_pipeline start_heap))"
    using tf [where ?ld1.0 = host_loaders and ?ld2.0 = host_loaders and sc = "Some 0"
                and e = "Upstream []", THEN conjunct2, THEN conjunct1]
    by (simp add: flag_manager_fields lf uf host_loaders_def start_heap_def)
  from g1 g2 g3 b1 b2 b3 f1 f2 show ?thesis by blast
qed

section \<open>Cancellation of the iteration\<close>

lemma iter_loop_take:
  "\<lbrakk>j < length xs; e (k + j); \<forall>i<j. \<not> e (k + i)\<rbrakk> \<Longrightarrow>
     iter_loop (Some e) k d xs = (take j xs, ''ABORTED: '')"
proof (induction xs arbitrary: k j)
  case Nil
  then show ?case by simp
next
  case (Cons x xs)
  show ?case
  proof (cases j)
    case 0
    with Cons.prems show ?thesis by simp
  next
    case (Suc j')
    from Cons.prems Suc have a: "j' < length xs" by simp
    from Cons.prems Suc have b: "e (Suc k + j')" by simp
    have c: "\<forall>i<j'. \<not> e (Suc k + i)"
    proof (intro allI impI)
      fix i assume "i < j'"
      then have "Suc i < j" using Suc by simp
      with Cons.prems(3) have "\<not> e (k + Suc i)" by blast
      then show "\<not> e (Suc k + i)" by simp
    qed
    have d0: "\<not> e k" using Cons.prems(3) Suc by force
    from Cons.IH[OF a b c] d0 Suc show ?thesis by simp
  qed
qed

lemma iter_loop_set_at_start: "e k \<Longrightarrow> fst (iter_loop (Some e) k d xs) = []"
  by (cases xs) simp_all

lemma iter_loop_all:
  "\<forall>i<length xs. \<not> e (k + i) \<Longrightarrow> iter_loop (Some e) k d xs = (xs, d)"
proof (induction xs arbitrary: k)
  case Nil
  then show ?case by simp
next
  case (Cons x xs)
  have "\<forall>i<length xs. \<not> e (Suc k + i)"
  proof (intro allI impI)
    fix i assume "i < length xs"
    then have "Suc i < length (x # xs)" by simp
    with Cons.prems have "\<not> e (k + Suc i)" by blast
    then show "\<not> e (Suc k + i)" by simp
  qed
  from Cons.IH [OF this] Cons.prems show ?case by force
qed

text \<open>
  Claim C9, as stated, fails: a signal that becomes set during the last step of the
  loop, after the last poll, is seen by no poll. Here it is unset at the three polls
  of a loop over three elements and set from then on, and all three elements are
  produced, not fewer.
\<close>

theorem stop_signal_in_last_step_unseen:
  "InternalTqdm_iter (ProgressBarWrapper_call (ProgressBarWrapper_init None (Some (\<lambda>k. 3 \<le> k)))
       [10, 20, 30 :: nat]) = ([10, 20, 30], [])
   \<and> \<not> length (fst (InternalTqdm_iter (ProgressBarWrapper_call
              (ProgressBarWrapper_init None (Some (\<lambda>k. 3 \<le> k))) [10, 20, 30 :: nat])))
         < length [10, 20, 30 :: nat]"
  by (simp add: InternalTqdm_iter_def ProgressBarWrapper_call_def ProgressBarWrapper_init_def)

text \<open>
  Claim C9, amended. With a stop signal: if it is set at the first poll, before the
  first element is yielded, no element is produced; if it is first seen set at the
  poll before element \<open>j\<close> of the loop, the iteration ends there, described as
  "ABORTED: ", having produced the \<open>j\<close> elements before, fewer than the total; if
  no poll of the loop sees it set, as when it is set during the last step only, every
  element is produced.
\<close>

theorem stop_signal_ends_iteration:
  "(e 0 \<longrightarrow> fst (InternalTqdm_iter (ProgressBarWrapper_call (ProgressBarWrapper_init cb (Some e)) xs)) = [])
   \<and> (j < length xs \<and> e j \<and> (\<forall>i<j. \<not> e i) \<longrightarrow>
        InternalTqdm_iter (ProgressBarWrapper_call (ProgressBarWrapper_init cb (Some e)) xs)
          = (take j xs, ''ABORTED: '')
        \<and> length (fst (InternalTqdm_iter (ProgressBarWrapper_call (ProgressBarWrapper_init cb (Some e)) xs)))
          < length xs)
   \<and> ((\<forall>i<length xs. \<not> e i) \<longrightarrow>
        InternalTqdm_iter (ProgressBarWrapper_call (ProgressBarWrapper_init cb (Some e)) xs) = (xs, []))"
proof (intro conjI impI)
  assume "e 0"
  then show "fst (InternalTqdm_iter (ProgressBarWrapper_call (ProgressBarWrapper_init cb (Some e)) xs)) = []"
    by (simp add: InternalTqdm_iter_def ProgressBarWrapper_call_def ProgressBarWrapper_init_def
          iter_loop_set_at_start)
next
  assume a: "j < length xs \<and> e j \<and> (\<forall>i<j. \<not> e i)"
  then have "iter_loop (Some e) 0 [] xs = (take j xs, ''ABORTED: '')"
    using iter_loop_take [of j xs e 0 "[]"] by simp
  then show r: "InternalTqdm_iter (ProgressBarWrapper_call (ProgressBarWrapper_init cb (Some e)) xs)
          = (take j xs, ''ABORTED: '')"
    by (simp add: InternalTqdm_iter_def ProgressBarWrapper_call_def ProgressBarWrapper_init_def)
  from a show "length (fst (InternalTqdm_iter (ProgressBarWrapper_call (ProgressBarWrapper_init cb (Some e)) xs)))
          < length xs"
    unfolding r by simp
next
  assume "\<forall>i<length xs. \<not> e i"
  then have "iter_loop (Some e) 0 [] xs = (xs, [])"
    using iter_loop_all [of xs e 0 "[]"] by simp
  then show "InternalTqdm_iter (ProgressBarWrapper_call (ProgressBarWrapper_init cb (Some e)) xs) = (xs, [])"
    by (simp add: InternalTqdm_iter_def ProgressBarWrapper_call_def ProgressBarWrapper_init_def)
qed

theorem stop_signal_ends_iteration_witness:
  "fst (InternalTqdm_iter (ProgressBarWrapper_call (ProgressBarWrapper_init None (Some (\<lambda>k. True))) [10, 20, 30 :: nat])) = []
   \<and> InternalTqdm_iter (ProgressBarWrapper_call (ProgressBarWrapper_init None (Some (\<lambda>k. 2 \<le> k))) [10, 20, 30, 40 :: nat])
       = ([10, 20], ''ABORTED: '')
   \<and> InternalTqdm_iter (ProgressBarWrapper_call (ProgressBarWrapper_init None (Some (\<lambda>k. 4 \<le> k))) [10, 20, 30, 40 :: nat])
       = ([10, 20, 30, 40], [])"
  using stop_signal_ends_iteration [where e = "\<lambda>k. True" and cb = None and xs = "[10, 20, 30 :: nat]"]
        stop_signal_ends_iteration [where e = "\<lambda>k. 2 \<le> k" and cb = None and xs = "[10, 20, 30, 40 :: nat]" and j = 2]
        stop_signal_ends_iteration [where e = "\<lambda>k. 4 \<le> k" and cb = None and xs = "[10, 20, 30, 40 :: nat]"]
  by simp

section \<open>Loading and status\<close>

lemma status_fold:
  "foldl (\<lambda>d eng. if get_flag (enabled eng) True then d(e_id eng \<mapsto> P (e_id eng)) else d) d0 es k
     = (if \<exists>e\<in>set es. e_id e = k \<and> get_flag (enabled e) True then Some (P k) else d0 k)"
  by (induction es arbitrary: d0) auto

lemma getStatus_lookup:
  "getStatus m k =
     (if \<exists>e\<in>set (engines m). e_id e = k \<and> get_flag (enabled e) True
      then Some (pipelines m k \<noteq> None) else None)"
  unfolding getStatus_def by (simp add: status_fold [where P = "\<lambda>i. pipelines m i \<noteq> None"])

lemma buildPipeline_store:
  assumes "buildPipeline t os c ld m eng h = (Inr (Some r), h')"
  shows "r = length (wraps h) \<and> (\<exists>w. wraps h' = wraps h @ [w] \<and> w_id w = e_id eng)"
  using assms
  by (auto simp: buildPipeline_def Let_def split: sum.splits if_splits prod.splits
        dest!: PipelineWrapper_new_store)

lemma buildPipeline_id:
  assumes "buildPipeline t os c ld m eng h = (Inr (Some r), h')"
  shows "w_id (wraps h' ! r) = e_id eng"
  using buildPipeline_store [OF assms] by auto

lemma loadPipelines_loop_engines:
  "loadPipelines_loop t os c ld es m h = (res, m', h') \<Longrightarrow> engines m' = engines m"
proof (induction es arbitrary: m h)
  case Nil
  then show ?case by simp
next
  case (Cons eng rest)
  show ?case
  proof (cases "get_flag (enabled eng) False")
    case False
    with Cons show ?thesis by simp
  next
    case True
    obtain b hb where bp: "buildPipeline t os c ld m eng h = (b, hb)" by force
    show ?thesis
    proof (cases b)
      case (Inl e)
      with Cons.prems True bp show ?thesis by simp
    next
      case (Inr ob)
      show ?thesis
      proof (cases ob)
        case None
        with Cons.prems True bp Inr show ?thesis by simp
      next
        case (Some pipe)
        with Cons.prems True bp Inr show ?thesis
          by (auto simp: Let_def dest!: Cons.IH split: if_splits)
      qed
    qed
  qed
qed

lemma loadPipelines_loop_registry:
  "loadPipelines_loop t os c ld es m h = (res, m', h') \<Longrightarrow>
   \<forall>e\<in>set es. e_id e = k \<longrightarrow> \<not> get_flag (enabled e) False \<Longrightarrow>
   pipelines m' k = pipelines m k"
proof (induction es arbitrary: m h)
  case Nil
  then show ?case by simp
next
  case (Cons eng rest)
  from Cons.prems(2) have rest: "\<forall>e\<in>set rest. e_id e = k \<longrightarrow> \<not> get_flag (enabled e) False"
    by simp
  show ?case
  proof (cases "get_flag (enabled eng) False")
    case False
    with Cons.prems(1) have "loadPipelines_loop t os c ld rest m h = (res, m', h')" by simp
    from Cons.IH [OF this rest] show ?thesis .
  next
    case True
    with Cons.prems(2) have ne: "e_id eng \<noteq> k" by auto
    obtain b hb where bp: "buildPipeline t os c ld m eng h = (b, hb)" by force
    show ?thesis
    proof (cases b)
      case (Inl e)
      with Cons.prems True bp show ?thesis by simp
    next
      case (Inr ob)
      show ?thesis
      proof (cases ob)
        case None
        with Cons.prems True bp Inr show ?thesis by simp
      next
        case (Some pipe)
        have wid: "w_id (wraps hb ! pipe) = e_id eng"
          using bp Inr Some buildPipeline_id by blast
        let ?m1 = "m\<lparr>pipelines := (pipelines m)(e_id eng \<mapsto> pipe)\<rparr>"
        let ?m2 = "if get_flag (e_default eng) False then ?m1\<lparr>default_pipe := Some pipe\<rparr> else ?m1"
        from Cons.prems(1) True bp Inr Some
        have "loadPipelines_loop t os c ld rest ?m2 hb = (res, m', h')"
          by (simp add: Let_def wid cong: if_cong)
        from Cons.IH [OF this rest] ne show ?thesis by (simp split: if_splits)
      qed
    qed
  qed
qed

lemma build_sd:
  "nsfw m = ''block'' \<Longrightarrow>
   buildPipeline t os c host_loaders m engine_sd h =
     (case PipelineWrapper_new t c ''sd'' (m_mode m) host_pipeline h of (r, h') \<Rightarrow> (Inr (Some r), h'))"
  by (simp add: buildPipeline_def Let_def host_loaders_def engine_sd_def)

lemma build_uni:
  "nsfw m = ''block'' \<Longrightarrow>
   buildPipeline t os c host_loaders m engine_uni h =
     (case PipelineWrapper_new t c ''uni'' (m_mode m) host_pipeline h of (r, h') \<Rightarrow> (Inr (Some r), h'))"
  by (simp add: buildPipeline_def Let_def host_loaders_def engine_uni_def)

lemma engine_sd_fields:
  "e_id engine_sd = ''sd''" "enabled engine_sd = Some True" "e_default engine_sd = Some True"
  by (simp_all add: engine_sd_def)

lemma engine_uni_fields:
  "e_id engine_uni = ''uni''" "enabled engine_uni = Some True" "e_default engine_uni = None"
  by (simp_all add: engine_uni_def)

lemma load_step_sd:
  assumes "nsfw m = ''block''"
  shows "\<exists>w hb. w_id w = ''sd'' \<and> wraps hb = wraps h @ [w] \<and>
     loadPipelines_loop t os c host_loaders (engine_sd # rest) m h =
     loadPipelines_loop t os c host_loaders rest
       (m\<lparr>pipelines := (pipelines m)(''sd'' \<mapsto> length (wraps h)), default_pipe := Some (length (wraps h))\<rparr>) hb"
proof -
  obtain r hb where n: "PipelineWrapper_new t c ''sd'' (m_mode m) host_pipeline h = (r, hb)"
    by force
  from PipelineWrapper_new_store [OF n] obtain w where
    w: "r = length (wraps h)" "wraps hb = wraps h @ [w]" "w_id w = ''sd''"
    by blast
  have b: "buildPipeline t os c host_loaders m engine_sd h = (Inr (Some r), hb)"
    using assms n by (simp add: build_sd)
  have wid: "w_id (wraps hb ! r) = ''sd''" using w by simp
  have "loadPipelines_loop t os c host_loaders (engine_sd # rest) m h =
     loadPipelines_loop t os c host_loaders rest
       (m\<lparr>pipelines := (pipelines m)(''sd'' \<mapsto> r), default_pipe := Some r\<rparr>) hb"
    by (simp add: b wid engine_sd_fields get_flag_def Let_def)
  with w show ?thesis by blast
qed

text \<open>
  Claim C5, as stated, fails: a single engine marked \<open>enabled: false\<close> has no entry
  in the status, where the claim wants an entry \<open>False\<close>.
\<close>

theorem disabled_engine_has_no_status:
  "getStatus (fst (snd (loadPipelines cuda_host (posix weights_dirs) built_ctors host_loaders
       (fresh_manager [engine_sd\<lparr>enabled := Some False\<rparr>]) start_heap))) ''sd'' = None
   \<and> getStatus (fst (snd (loadPipelines cuda_host (posix weights_dirs) built_ctors host_loaders
       (fresh_manager [engine_sd\<lparr>enabled := Some False\<rparr>]) start_heap))) ''sd'' \<noteq> Some False"
  by (simp add: loadPipelines_def getStatus_def get_flag_def fresh_manager_def EngineManager_init_def)

text \<open>
  Claim C5, amended. For an engine marked \<open>enabled: false\<close>, \<open>loadPipelines\<close> skips
  the configuration; when every configuration with its identifier is marked so and
  the identifier was not registered before, no pipeline is registered for it and
  \<open>getStatus\<close> has no entry for the identifier.
\<close>

theorem disabled_engine_left_out:
  assumes "loadPipelines t os c ld m h = (res, m', h')"
      and "eng \<in> set (engines m)"
      and "enabled eng = Some False"
      and "\<forall>e\<in>set (engines m). e_id e = e_id eng \<longrightarrow> enabled e = Some False"
      and "pipelines m (e_id eng) = None"
  shows "loadPipelines_loop t os c ld (eng # rest) m0 h0 = loadPipelines_loop t os c ld rest m0 h0
       \<and> pipelines m' (e_id eng) = None
       \<and> getStatus m' (e_id eng) = None"
proof -
  have l: "loadPipelines_loop t os c ld (engines m) m h = (res, m', h')"
    using assms(1) by (simp add: loadPipelines_def)
  have skip: "loadPipelines_loop t os c ld (eng # rest) m0 h0 = loadPipelines_loop t os c ld rest m0 h0"
    using assms(3) by (simp add: get_flag_def)
  have "\<forall>e\<in>set (engines m). e_id e = e_id eng \<longrightarrow> \<not> get_flag (enabled e) False"
    using assms(4) by (auto simp: get_flag_def)
  from loadPipelines_loop_registry [OF l this] assms(5)
  have reg: "pipelines m' (e_id eng) = None" by simp
  have "engines m' = engines m" using l by (rule loadPipelines_loop_engines)
  then have "\<not> (\<exists>e\<in>set (engines m'). e_id e = e_id eng \<and> get_flag (enabled e) True)"
    using assms(4) by (auto simp: get_flag_def)
  then have st: "getStatus m' (e_id eng) = None"
    by (simp add: getStatus_lookup)
  from skip reg st show ?thesis by simp
qed

theorem disabled_engine_left_out_witness:
  "pipelines (fst (snd (loadPipelines cuda_host (posix weights_dirs) built_ctors host_loaders
       (fresh_manager [engine_sd\<lparr>enabled := Some False\<rparr>, engine_uni]) start_heap))) ''sd'' = None
   \<and> getStatus (fst (snd (loadPipelines cuda_host (posix weights_dirs) built_ctors host_loaders
       (fresh_manager [engine_sd\<lparr>enabled := Some False\<rparr>, engine_uni]) start_heap))) ''sd'' = None"
proof -
  let ?m = "fresh_manager [engine_sd\<lparr>enabled := Some False\<rparr>, engine_uni]"
  obtain res m' h' where l: "loadPipelines cuda_host (posix weights_dirs) built_ctors host_loaders ?m start_heap = (res, m', h')"
    using prod_cases3 by blast
  have a: "engine_sd\<lparr>enabled := Some False\<rparr> \<in> set (engines ?m)"
    by (simp add: fresh_manager_def EngineManager_init_def)
  have b: "enabled (engine_sd\<lparr>enabled := Some False\<rparr>) = Some False" by simp
  have c: "\<forall>e\<in>set (engines ?m). e_id e = e_id (engine_sd\<lparr>enabled := Some False\<rparr>) \<longrightarrow> enabled e = Some False"
    by (simp add: fresh_manager_def EngineManager_init_def engine_sd_def engine_uni_def)
  have d: "pipelines ?m (e_id (engine_sd\<lparr>enabled := Some False\<rparr>)) = None"
    by (simp add: fresh_manager_def EngineManager_init_def)
  from disabled_engine_left_out [OF l a b c d] l show ?thesis
    by (simp add: engine_sd_def)
qed

text \<open>
  Claim C10, as stated, fails: an engine without the field \<open>enabled\<close> whose identifier
  is also that of an enabled engine is reported ready.
\<close>

theorem unset_enabled_ready_with_twin:
  "getStatus (fst (snd (loadPipelines cuda_host (posix weights_dirs) built_ctors host_loaders
       (fresh_manager [engine_sd, engine_sd\<lparr>enabled := None\<rparr>]) start_heap))) ''sd'' = Some True"
proof -
  let ?m = "fresh_manager [engine_sd, engine_sd\<lparr>enabled := None\<rparr>]"
  have n: "nsfw ?m = ''block''" by (simp add: fresh_manager_def EngineManager_init_def)
  from load_step_sd [OF n, of start_heap cuda_host "posix weights_dirs" built_ctors "[engine_sd\<lparr>enabled := None\<rparr>]"]
  obtain w hb where
    "loadPipelines_loop cuda_host (posix weights_dirs) built_ctors host_loaders [engine_sd, engine_sd\<lparr>enabled := None\<rparr>] ?m start_heap =
     loadPipelines_loop cuda_host (posix weights_dirs) built_ctors host_loaders [engine_sd\<lparr>enabled := None\<rparr>]
       (?m\<lparr>pipelines := (pipelines ?m)(''sd'' \<mapsto> length (wraps start_heap)), default_pipe := Some (length (wraps start_heap))\<rparr>) hb"
    by blast
  then have "fst (snd (loadPipelines cuda_host (posix weights_dirs) built_ctors host_loaders ?m start_heap))
      = ?m\<lparr>pipelines := (pipelines ?m)(''sd'' \<mapsto> length (wraps start_heap)), default_pipe := Some (length (wraps start_heap))\<rparr>"
    by (simp add: loadPipelines_def get_flag_def fresh_manager_def EngineManager_init_def)
  then show ?thesis
    by (simp add: getStatus_lookup fresh_manager_def EngineManager_init_def engine_sd_fields get_flag_def)
qed

text \<open>
  Claim C10, amended. For an engine without the field \<open>enabled\<close>, \<open>loadPipelines\<close>
  skips the configuration and \<open>getStatus\<close> has an entry for its identifier; the
  entry is \<open>False\<close> when no configuration with this identifier is marked
  \<open>enabled: true\<close> and the identifier was not registered before.
\<close>

theorem unset_enabled_reported_not_ready:
  assumes "loadPipelines t os c ld m h = (res, m', h')"
      and "eng \<in> set (engines m)"
      and "enabled eng = None"
      and "\<forall>e\<in>set (engines m). e_id e = e_id eng \<longrightarrow> enabled e \<noteq> Some True"
      and "pipelines m (e_id eng) = None"
  shows "loadPipelines_loop t os c ld (eng # rest) m0 h0 = loadPipelines_loop t os c ld rest m0 h0
       \<and> getStatus m' (e_id eng) = Some False"
proof -
  have l: "loadPipelines_loop t os c ld (engines m) m h = (res, m', h')"
    using assms(1) by (simp add: loadPipelines_def)
  have skip: "loadPipelines_loop t os c ld (eng # rest) m0 h0 = loadPipelines_loop t os c ld rest m0 h0"
    using assms(3) by (simp add: get_flag_def)
  have "\<forall>e\<in>set (engines m). e_id e = e_id eng \<longrightarrow> \<not> get_flag (enabled e) False"
    using assms(4) by (auto simp: get_flag_def split: option.splits)
  from loadPipelines_loop_registry [OF l this] assms(5)
  have reg: "pipelines m' (e_id eng) = None" by simp
  have "engines m' = engines m" using l by (rule loadPipelines_loop_engines)
  then have "\<exists>e\<in>set (engines m'). e_id e = e_id eng \<and> get_flag (enabled e) True"
    using assms(2,3) by (auto simp: get_flag_def)
  then have st: "getStatus m' (e_id eng) = Some False"
    using reg by (simp add: getStatus_lookup)
  from skip st show ?thesis by simp
qed

theorem unset_enabled_reported_not_ready_witness:
  "getStatus (fst (snd (loadPipelines cuda_host (posix weights_dirs) built_ctors host_loaders
       (fresh_manager [engine_uni, engine_sd\<lparr>enabled := None\<rparr>]) start_heap))) ''sd'' = Some False"
proof -
  let ?m = "fresh_manager [engine_uni, engine_sd\<lparr>enabled := None\<rparr>]"
  obtain res m' h' where l: "loadPipelines cuda_host (posix weights_dirs) built_ctors host_loaders ?m start_heap = (res, m', h')"
    using prod_cases3 by blast
  have a: "engine_sd\<lparr>enabled := None\<rparr> \<in> set (engines ?m)"
    by (simp add: fresh_manager_def EngineManager_init_def)
  have b: "enabled (engine_sd\<lparr>enabled := None\<rparr>) = None" by simp
  have c: "\<forall>e\<in>set (engines ?m). e_id e = e_id (engine_sd\<lparr>enabled := None\<rparr>) \<longrightarrow> enabled e \<noteq> Some True"
    by (simp add: fresh_manager_def EngineManager_init_def engine_sd_fields engine_uni_fields)
  have d: "pipelines ?m (e_id (engine_sd\<lparr>enabled := None\<rparr>)) = None"
    by (simp add: fresh_manager_def EngineManager_init_def)
  from unset_enabled_reported_not_ready [OF l a b c d] l show ?thesis
    by (simp add: engine_sd_fields)
qed

section \<open>Residency\<close>

lemma activate_fields [simp]:
  "w_id (activate t w) = w_id w" "w_mode (activate t w) = w_mode w"
  by (simp_all add: activate_def)

lemma deactivate_fields [simp]:
  "w_id (deactivate t w) = w_id w" "w_mode (deactivate t w) = w_mode w"
  by (simp_all add: deactivate_def)

lemma deactivate_host [simp]: "host_resident (deactivate t w)"
  by (simp add: deactivate_def host_resident_def pipeline_to_def)

lemma activate_accelerator:
  "device t (w_mode w) \<noteq> Cpu \<Longrightarrow> accelerator_resident (activate t w)"
  by (simp add: activate_def accelerator_resident_def host_resident_def pipeline_to_def unet_to_def)

lemma activate_on_cpu:
  "device t (w_mode w) = Cpu \<Longrightarrow> host_resident w \<Longrightarrow> host_resident (activate t w)"
  by (simp add: activate_def host_resident_def pipeline_to_def unet_to_def cuda_only_unet_def)

lemma getPipe_registered:
  assumes reg: "registry_ok m h"
      and inv: "single_resident m h"
      and key: "pipelines m i = Some r"
      and acc: "device t (w_mode (wraps h ! r)) \<noteq> Cpu"
      and get: "getPipe t i m h = (res, m', h')"
  shows "registry_ok m' h' \<and> single_resident m' h' \<and> pipelines m' = pipelines m
       \<and> length (wraps h') = length (wraps h)
       \<and> (\<forall>q. w_mode (wraps h' ! q) = w_mode (wraps h ! q))"
proof -
  from reg key have r: "r < length (wraps h)" "w_id (wraps h ! r) = i"
    by (auto simp: registry_ok_def)
  show ?thesis
  proof (cases "active m")
    case None
    with get key have m': "m' = m\<lparr>active := Some r\<rparr>"
      and h': "h' = h\<lparr>wraps := (wraps h)[r := activate t (wraps h ! r)]\<rparr>"
      by (simp_all add: getPipe_def)
    from inv None have host: "\<forall>q < length (wraps h). host_resident (wraps h ! q)"
      by (auto simp: single_resident_def accelerator_resident_def)
    have 1: "registry_ok m' h'"
      using reg r by (auto simp: registry_ok_def m' h' nth_list_update)
    have 2: "single_resident m' h'"
      using host r activate_accelerator [OF acc]
      by (auto simp: single_resident_def accelerator_resident_def m' h' nth_list_update)
    have 3: "\<forall>q. w_mode (wraps h' ! q) = w_mode (wraps h ! q)"
      using r by (auto simp: h' nth_list_update)
    from 1 2 3 show ?thesis by (simp add: m' h')
  next
    case (Some a)
    from inv Some have a: "a < length (wraps h)"
      and others: "\<forall>q < length (wraps h). q \<noteq> a \<longrightarrow> host_resident (wraps h ! q)"
      by (auto simp: single_resident_def accelerator_resident_def)
    show ?thesis
    proof (cases "i = w_id (wraps h ! a)")
      case True
      with get Some have "m' = m" "h' = h" by (simp_all add: getPipe_def)
      with reg inv show ?thesis by simp
    next
      case False
      with r have ne: "r \<noteq> a" by auto
      let ?h1 = "h\<lparr>wraps := (wraps h)[a := deactivate t (wraps h ! a)]\<rparr>"
      from get Some False key have m': "m' = m\<lparr>active := Some r\<rparr>"
        and h': "h' = ?h1\<lparr>wraps := (wraps ?h1)[r := activate t (wraps ?h1 ! r)]\<rparr>"
        by (simp_all add: getPipe_def Let_def)
      have same: "wraps ?h1 ! r = wraps h ! r" using ne by simp
      have 1: "registry_ok m' h'"
        using reg r a by (auto simp: registry_ok_def m' h' nth_list_update)
      have 2: "single_resident m' h'"
        using others r a ne activate_accelerator [OF acc]
        by (auto simp: single_resident_def accelerator_resident_def m' h' nth_list_update)
      have 3: "\<forall>q. w_mode (wraps h' ! q) = w_mode (wraps h ! q)"
        using r a by (auto simp: h' nth_list_update)
      from 1 2 3 show ?thesis by (simp add: m' h')
    qed
  qed
qed

lemma buildPipeline_built:
  assumes "buildPipeline t os c ld m eng h = (Inr (Some r), h')" and "loaders_on_host ld"
  shows "r = length (wraps h) \<and>
     (\<exists>w. wraps h' = wraps h @ [w] \<and> w_id w = e_id eng \<and> w_mode w = m_mode m \<and> host_resident w)"
  using assms
  by (auto simp: buildPipeline_def Let_def loaders_on_host_def on_host_def host_resident_def
        split: sum.splits if_splits prod.splits dest!: PipelineWrapper_new_store)

lemma loadPipelines_loop_wf:
  assumes "loadPipelines_loop t os c ld es m h = (res, m', h')"
      and "registry_ok m h" and "all_on_host h" and "loaders_on_host ld"
      and "\<forall>q < length (wraps h). w_mode (wraps h ! q) = m_mode m"
  shows "registry_ok m' h' \<and> all_on_host h' \<and> active m' = active m \<and> m_mode m' = m_mode m
       \<and> (\<forall>q < length (wraps h'). w_mode (wraps h' ! q) = m_mode m)"
  using assms
proof (induction es arbitrary: m h)
  case Nil
  then show ?case by simp
next
  case (Cons eng rest)
  show ?case
  proof (cases "get_flag (enabled eng) False")
    case False
    with Cons.prems(1) have "loadPipelines_loop t os c ld rest m h = (res, m', h')" by simp
    from Cons.IH [OF this Cons.prems(2) Cons.prems(3) Cons.prems(4) Cons.prems(5)] show ?thesis .
  next
    case True
    obtain b hb where bp: "buildPipeline t os c ld m eng h = (b, hb)" by force
    show ?thesis
    proof (cases b)
      case (Inl e)
      with bp have "hb = h"
        by (auto simp: buildPipeline_def Let_def split: sum.splits if_splits prod.splits)
      with Cons.prems True bp Inl show ?thesis by simp
    next
      case (Inr ob)
      show ?thesis
      proof (cases ob)
        case None
        with bp Inr have "hb = h"
          by (auto simp: buildPipeline_def Let_def split: sum.splits if_splits prod.splits)
        with Cons.prems True bp Inr None show ?thesis by simp
      next
        case (Some pipe)
        from bp Inr Some have "buildPipeline t os c ld m eng h = (Inr (Some pipe), hb)" by simp
        from buildPipeline_built [OF this Cons.prems(4)] obtain w where
          w: "pipe = length (wraps h)" "wraps hb = wraps h @ [w]" "w_id w = e_id eng"
             "w_mode w = m_mode m" "host_resident w"
          by blast
        have wid: "w_id (wraps hb ! pipe) = e_id eng" using w by simp
        let ?m1 = "m\<lparr>pipelines := (pipelines m)(e_id eng \<mapsto> pipe)\<rparr>"
        let ?m2 = "if get_flag (e_default eng) False then ?m1\<lparr>default_pipe := Some pipe\<rparr> else ?m1"
        from Cons.prems(1) True bp Inr Some
        have l: "loadPipelines_loop t os c ld rest ?m2 hb = (res, m', h')"
          by (simp add: Let_def wid cong: if_cong)
        have old: "\<And>k r. pipelines m k = Some r \<Longrightarrow> r < length (wraps h) \<and> w_id (wraps h ! r) = k"
          using Cons.prems(2) by (simp add: registry_ok_def)
        have r2: "registry_ok ?m2 hb"
          unfolding registry_ok_def
        proof (intro allI impI)
          fix k r assume kr: "pipelines ?m2 k = Some r"
          show "r < length (wraps hb) \<and> w_id (wraps hb ! r) = k"
          proof (cases "k = e_id eng")
            case True
            with kr have "r = pipe" by (simp split: if_splits)
            with w True show ?thesis by simp
          next
            case False
            with kr have "pipelines m k = Some r" by (simp split: if_splits)
            from old [OF this] w show ?thesis by (simp add: nth_append)
          qed
        qed
        have a2: "all_on_host hb"
          using Cons.prems(3) w by (auto simp: all_on_host_def nth_append less_Suc_eq)
        have md: "\<forall>q < length (wraps hb). w_mode (wraps hb ! q) = m_mode ?m2"
          using Cons.prems(5) w by (auto simp: nth_append less_Suc_eq)
        from Cons.IH [OF l r2 a2 Cons.prems(4) md] show ?thesis by (simp split: if_splits)
      qed
    qed
  qed
qed

lemma host_loaders_on_host: "loaders_on_host host_loaders"
  by (simp add: loaders_on_host_def host_loaders_def on_host_def host_pipeline_def)

lemma loaded_wf:
  "registry_ok (fst (loaded t es)) (snd (loaded t es)) \<and> all_on_host (snd (loaded t es))
   \<and> active (fst (loaded t es)) = None
   \<and> (\<forall>q < length (wraps (snd (loaded t es))).
         w_mode (wraps (snd (loaded t es)) ! q) = EngineMode_init 2 True False)"
proof -
  let ?m = "fresh_manager es"
  obtain res m' h' where l: "loadPipelines_loop t (posix weights_dirs) built_ctors host_loaders (engines ?m) ?m start_heap = (res, m', h')"
    using prod_cases3 by blast
  have 1: "registry_ok ?m start_heap"
    by (simp add: registry_ok_def fresh_manager_def EngineManager_init_def)
  have 2: "all_on_host start_heap" by (simp add: all_on_host_def start_heap_def)
  have 3: "\<forall>q < length (wraps start_heap). w_mode (wraps start_heap ! q) = m_mode ?m"
    by (simp add: start_heap_def)
  have ld: "loaded t es = (m', h')"
    using l by (simp add: loaded_def loadPipelines_def)
  have 4: "active ?m = None" "m_mode ?m = EngineMode_init 2 True False"
    by (simp_all add: fresh_manager_def EngineManager_init_def)
  from loadPipelines_loop_wf [OF l 1 2 host_loaders_on_host 3]
  show ?thesis
    unfolding ld 4 by simp
qed

lemma all_on_host_single_resident:
  "all_on_host h \<Longrightarrow> active m = None \<Longrightarrow> single_resident m h"
  by (simp add: all_on_host_def single_resident_def accelerator_resident_def)

lemma load_step_uni:
  assumes "nsfw m = ''block''"
  shows "\<exists>w hb. w_id w = ''uni'' \<and> wraps hb = wraps h @ [w] \<and>
     loadPipelines_loop t os c host_loaders (engine_uni # rest) m h =
     loadPipelines_loop t os c host_loaders rest
       (m\<lparr>pipelines := (pipelines m)(''uni'' \<mapsto> length (wraps h))\<rparr>) hb"
proof -
  obtain r hb where n: "PipelineWrapper_new t c ''uni'' (m_mode m) host_pipeline h = (r, hb)"
    by force
  from PipelineWrapper_new_store [OF n] obtain w where
    w: "r = length (wraps h)" "wraps hb = wraps h @ [w]" "w_id w = ''uni''"
    by blast
  have b: "buildPipeline t os c host_loaders m engine_uni h = (Inr (Some r), hb)"
    using assms n by (simp add: build_uni)
  have wid: "w_id (wraps hb ! r) = ''uni''" using w by simp
  have "loadPipelines_loop t os c host_loaders (engine_uni # rest) m h =
     loadPipelines_loop t os c host_loaders rest
       (m\<lparr>pipelines := (pipelines m)(''uni'' \<mapsto> r)\<rparr>) hb"
    by (simp add: b wid engine_uni_fields get_flag_def Let_def)
  with w show ?thesis by blast
qed

lemma loaded_one:
  "pipelines (fst (loaded t [engine_sd])) = [''sd'' \<mapsto> 0]
   \<and> length (wraps (snd (loaded t [engine_sd]))) = 1"
proof -
  let ?m = "fresh_manager [engine_sd]"
  have n: "nsfw ?m = ''block''" by (simp add: fresh_manager_def EngineManager_init_def)
  from load_step_sd [OF n, of start_heap t "posix weights_dirs" built_ctors "[]"]
  obtain w hb where
    hb: "wraps hb = wraps start_heap @ [w]" and
    l: "loadPipelines_loop t (posix weights_dirs) built_ctors host_loaders [engine_sd] ?m start_heap =
     loadPipelines_loop t (posix weights_dirs) built_ctors host_loaders []
       (?m\<lparr>pipelines := (pipelines ?m)(''sd'' \<mapsto> length (wraps start_heap)), default_pipe := Some (length (wraps start_heap))\<rparr>) hb"
    by blast
  have e: "engines ?m = [engine_sd]" "pipelines ?m = Map.empty"
    by (simp_all add: fresh_manager_def EngineManager_init_def)
  have "loaded t [engine_sd] =
      (?m\<lparr>pipelines := [''sd'' \<mapsto> 0], default_pipe := Some 0\<rparr>, hb)"
    unfolding loaded_def loadPipelines_def e l by (simp add: e start_heap_def)
  with hb show ?thesis by (simp add: start_heap_def)
qed

lemma loaded_two:
  "pipelines (fst (loaded t [engine_sd, engine_uni])) = [''sd'' \<mapsto> 0, ''uni'' \<mapsto> 1]
   \<and> length (wraps (snd (loaded t [engine_sd, engine_uni]))) = 2"
proof -
  let ?m = "fresh_manager [engine_sd, engine_uni]"
  let ?m1 = "?m\<lparr>pipelines := (pipelines ?m)(''sd'' \<mapsto> length (wraps start_heap)), default_pipe := Some (length (wraps start_heap))\<rparr>"
  have n: "nsfw ?m = ''block''" by (simp add: fresh_manager_def EngineManager_init_def)
  from load_step_sd [OF n, of start_heap t "posix weights_dirs" built_ctors "[engine_uni]"]
  obtain w hb where
    hb: "wraps hb = wraps start_heap @ [w]" and
    l: "loadPipelines_loop t (posix weights_dirs) built_ctors host_loaders [engine_sd, engine_uni] ?m start_heap =
     loadPipelines_loop t (posix weights_dirs) built_ctors host_loaders [engine_uni] ?m1 hb"
    by blast
  have n1: "nsfw ?m1 = ''block''" by (simp add: fresh_manager_def EngineManager_init_def)
  from load_step_uni [OF n1, of hb t "posix weights_dirs" built_ctors "[]"]
  obtain w' hc where
    hc: "wraps hc = wraps hb @ [w']" and
    l': "loadPipelines_loop t (posix weights_dirs) built_ctors host_loaders [engine_uni] ?m1 hb =
     loadPipelines_loop t (posix weights_dirs) built_ctors host_loaders []
       (?m1\<lparr>pipelines := (pipelines ?m1)(''uni'' \<mapsto> length (wraps hb))\<rparr>) hc"
    by blast
  have e: "engines ?m = [engine_sd, engine_uni]" "pipelines ?m = Map.empty"
    by (simp_all add: fresh_manager_def EngineManager_init_def)
  have len: "length (wraps hb) = 1" using hb by (simp add: start_heap_def)
  have "loaded t [engine_sd, engine_uni] =
      (?m1\<lparr>pipelines := (pipelines ?m1)(''uni'' \<mapsto> length (wraps hb))\<rparr>, hc)"
    unfolding loaded_def loadPipelines_def e(1) l l' by simp
  with hb hc len show ?thesis by (simp add: start_heap_def e)
qed

lemma device_cpu_host: "device cpu_host (EngineMode_init 2 True False) = Cpu"
  by (simp add: device_def hasCuda_def hasMps_def probe_ok_def cpu_host_def EngineMode_init_def)

lemma device_cuda_host: "device cuda_host (EngineMode_init 2 True False) = Cuda"
  by (simp add: device_def hasCuda_def hasMps_def probe_ok_def cuda_host_def EngineMode_init_def)

lemma getPipe_first:
  "active m = None \<Longrightarrow> pipelines m i = Some r \<Longrightarrow>
   getPipe t i m h = (Inr r, m\<lparr>active := Some r\<rparr>, h\<lparr>wraps := (wraps h)[r := activate t (wraps h ! r)]\<rparr>)"
  by (simp add: getPipe_def)

lemma getPipe_missing:
  "active m = Some a \<Longrightarrow> i \<noteq> w_id (wraps h ! a) \<Longrightarrow> pipelines m i = None \<Longrightarrow>
   getPipe t i m h = (Inl (KeyError i), m, h\<lparr>wraps := (wraps h)[a := deactivate t (wraps h ! a)]\<rparr>)"
  by (simp add: getPipe_def Let_def)

lemma getPipe_same:
  "active m = Some a \<Longrightarrow> i = w_id (wraps h ! a) \<Longrightarrow> getPipe t i m h = (Inr a, m, h)"
  by (simp add: getPipe_def)

lemma single_resident_parts:
  "single_resident m h = (resident_is_active m h \<and> active_is_resident m h)"
  by (simp add: single_resident_def resident_is_active_def active_is_resident_def)

lemma getPipe_resident_is_active:
  assumes inv: "resident_is_active m h" and get: "getPipe t i m h = (res, m', h')"
  shows "resident_is_active m' h'"
proof (cases "active m")
  case None
  from inv None have host: "\<forall>q < length (wraps h). host_resident (wraps h ! q)"
    by (auto simp: resident_is_active_def accelerator_resident_def)
  show ?thesis
  proof (cases "pipelines m i")
    case n: None
    with get None have "m' = m" "h' = h" by (simp_all add: getPipe_def)
    with inv show ?thesis by simp
  next
    case (Some r)
    with get None have m': "m' = m\<lparr>active := Some r\<rparr>"
      and h': "h' = h\<lparr>wraps := (wraps h)[r := activate t (wraps h ! r)]\<rparr>"
      by (simp_all add: getPipe_def)
    have "\<forall>q < length (wraps h'). q \<noteq> r \<longrightarrow> host_resident (wraps h' ! q)"
      unfolding h' using host by (simp add: nth_list_update)
    then show ?thesis
      by (auto simp: resident_is_active_def accelerator_resident_def m')
  qed
next
  case (Some a)
  from inv Some have others: "\<forall>q < length (wraps h). q \<noteq> a \<longrightarrow> host_resident (wraps h ! q)"
    by (auto simp: resident_is_active_def accelerator_resident_def)
  show ?thesis
  proof (cases "i = w_id (wraps h ! a)")
    case True
    with get Some have "m' = m" "h' = h" by (simp_all add: getPipe_def)
    with inv show ?thesis by simp
  next
    case False
    let ?h1 = "h\<lparr>wraps := (wraps h)[a := deactivate t (wraps h ! a)]\<rparr>"
    have h1: "\<forall>q < length (wraps ?h1). host_resident (wraps ?h1 ! q)"
    proof (intro allI impI)
      fix q assume q: "q < length (wraps ?h1)"
      show "host_resident (wraps ?h1 ! q)"
      proof (cases "q = a")
        case True
        with q show ?thesis by simp
      next
        case False
        with q others show ?thesis by simp
      qed
    qed
    show ?thesis
    proof (cases "pipelines m i")
      case None
      with get Some False have "m' = m" "h' = ?h1" by (simp_all add: getPipe_def Let_def)
      with h1 show ?thesis by (simp add: resident_is_active_def accelerator_resident_def)
    next
      case r: (Some r)
      with get Some False have m': "m' = m\<lparr>active := Some r\<rparr>"
        and h': "h' = ?h1\<lparr>wraps := (wraps ?h1)[r := activate t (wraps ?h1 ! r)]\<rparr>"
        by (simp_all add: getPipe_def Let_def)
      have "\<forall>q < length (wraps h'). q \<noteq> r \<longrightarrow> host_resident (wraps h' ! q)"
        unfolding h' using h1 by (simp add: nth_list_update)
      then show ?thesis
        by (auto simp: resident_is_active_def accelerator_resident_def m')
    qed
  qed
qed

lemma getPipe_all_resident_is_active:
  "resident_is_active m h \<Longrightarrow>
   resident_is_active (fst (getPipe_all cs m h)) (snd (getPipe_all cs m h))"
proof (induction cs arbitrary: m h)
  case Nil
  then show ?case by simp
next
  case (Cons c cs)
  obtain t i where c: "c = (t, i)" by force
  obtain res m' h' where get: "getPipe t i m h = (res, m', h')"
    using prod_cases3 by blast
  from getPipe_resident_is_active [OF Cons.prems get]
  have "resident_is_active (fst (getPipe_all cs m' h')) (snd (getPipe_all cs m' h'))"
    by (rule Cons.IH)
  then show ?case by (simp add: c get)
qed

text \<open>
  Claim C2, as stated, fails on a machine without an accelerator: the mode resolves
  to "cpu", \<open>activate\<close> moves the pipeline to the host, and the active pointer refers
  to a wrapper that is on the host.
\<close>

theorem active_on_host_without_accelerator:
  "active (fst (after_calls cpu_host [engine_sd] [(cpu_host, ''sd'')])) = Some 0
   \<and> host_resident (wraps (snd (after_calls cpu_host [engine_sd] [(cpu_host, ''sd'')])) ! 0)
   \<and> \<not> single_resident (fst (after_calls cpu_host [engine_sd] [(cpu_host, ''sd'')]))
                         (snd (after_calls cpu_host [engine_sd] [(cpu_host, ''sd'')]))
   \<and> \<not> active_is_resident (fst (after_calls cpu_host [engine_sd] [(cpu_host, ''sd'')]))
                           (snd (after_calls cpu_host [engine_sd] [(cpu_host, ''sd'')]))"
proof -
  let ?m = "fst (loaded cpu_host [engine_sd])" and ?h = "snd (loaded cpu_host [engine_sd])"
  note wf = loaded_wf [of cpu_host "[engine_sd]"] and one = loaded_one [of cpu_host]
  have key: "pipelines ?m ''sd'' = Some 0" using one by simp
  have none: "active ?m = None" using wf by simp
  have host: "host_resident (wraps ?h ! 0)" using wf one by (simp add: all_on_host_def)
  have mode: "w_mode (wraps ?h ! 0) = EngineMode_init 2 True False" using wf one by simp
  have act: "host_resident (activate cpu_host (wraps ?h ! 0))"
    using host mode by (simp add: activate_on_cpu device_cpu_host)
  have run: "after_calls cpu_host [engine_sd] [(cpu_host, ''sd'')] =
      (?m\<lparr>active := Some 0\<rparr>, ?h\<lparr>wraps := (wraps ?h)[0 := activate cpu_host (wraps ?h ! 0)]\<rparr>)"
    by (simp add: after_calls_def getPipe_first [OF none key])
  show ?thesis
    unfolding run using act one
    by (simp add: single_resident_def active_is_resident_def accelerator_resident_def)
qed

text \<open>
  From a well-formed registry, calls for registered identifiers made while the mode
  resolves to an accelerator keep both halves of the invariant.
\<close>

lemma single_resident_run:
  assumes "registry_ok m h"
      and "single_resident m h"
      and "\<forall>(t, i) \<in> set cs. \<exists>r. pipelines m i = Some r \<and> device t (w_mode (wraps h ! r)) \<noteq> Cpu"
  shows "single_resident (fst (getPipe_all cs m h)) (snd (getPipe_all cs m h))"
  using assms
proof (induction cs arbitrary: m h)
  case Nil
  then show ?case by simp
next
  case (Cons c cs)
  obtain t i where c: "c = (t, i)" by force
  from Cons.prems(3) c obtain r where
    key: "pipelines m i = Some r" and acc: "device t (w_mode (wraps h ! r)) \<noteq> Cpu"
    by auto
  obtain res m' h' where get: "getPipe t i m h = (res, m', h')"
    using prod_cases3 by blast
  note step = getPipe_registered [OF Cons.prems(1) Cons.prems(2) key acc get]
  have rest: "\<forall>(t, i) \<in> set cs. \<exists>r. pipelines m' i = Some r \<and> device t (w_mode (wraps h' ! r)) \<noteq> Cpu"
    using Cons.prems(3) step by auto
  have "single_resident (fst (getPipe_all cs m' h')) (snd (getPipe_all cs m' h'))"
    using step rest by (intro Cons.IH) simp_all
  then show ?case by (simp add: c get)
qed

text \<open>
  Claim C2, amended. From a state where the invariant holds (as after
  \<open>loadPipelines\<close>: nothing active, every wrapper on the host), in every state
  reached by \<open>getPipe\<close> calls, failed ones included and on any machine, a wrapper on
  an accelerator is the active one: at most one wrapper is on an accelerator and every
  other wrapper is on the host. When the registry is well formed and every call is for
  a registered identifier, made while the mode of the wrapper asked for resolves to an
  accelerator, the active pointer, if set, refers to a wrapper on an accelerator.
\<close>

theorem residency_invariant_kept:
  "(resident_is_active m h \<longrightarrow>
      resident_is_active (fst (getPipe_all cs m h)) (snd (getPipe_all cs m h)))
   \<and> (registry_ok m h \<and> resident_is_active m h \<and> active_is_resident m h
       \<and> (\<forall>(t, i) \<in> set cs. \<exists>r. pipelines m i = Some r \<and> device t (w_mode (wraps h ! r)) \<noteq> Cpu)
      \<longrightarrow> active_is_resident (fst (getPipe_all cs m h)) (snd (getPipe_all cs m h)))"
proof (intro conjI impI)
  assume "resident_is_active m h"
  then show "resident_is_active (fst (getPipe_all cs m h)) (snd (getPipe_all cs m h))"
    by (rule getPipe_all_resident_is_active)
next
  assume a: "registry_ok m h \<and> resident_is_active m h \<and> active_is_resident m h
       \<and> (\<forall>(t, i) \<in> set cs. \<exists>r. pipelines m i = Some r \<and> device t (w_mode (wraps h ! r)) \<noteq> Cpu)"
  then have "single_resident m h" by (simp add: single_resident_parts)
  with a have "single_resident (fst (getPipe_all cs m h)) (snd (getPipe_all cs m h))"
    by (intro single_resident_run) blast+
  then show "active_is_resident (fst (getPipe_all cs m h)) (snd (getPipe_all cs m h))"
    by (simp add: single_resident_parts)
qed

theorem residency_invariant_kept_witness:
  "resident_is_active
     (fst (after_calls cuda_host [engine_sd, engine_uni]
             [(cuda_host, ''sd''), (cuda_host, ''missing''), (cpu_host, ''uni'')]))
     (snd (after_calls cuda_host [engine_sd, engine_uni]
             [(cuda_host, ''sd''), (cuda_host, ''missing''), (cpu_host, ''uni'')]))
   \<and> active_is_resident
     (fst (after_calls cuda_host [engine_sd, engine_uni]
             [(cuda_host, ''sd''), (cuda_host, ''uni''), (cuda_host, ''uni''), (cuda_host, ''sd'')]))
     (snd (after_calls cuda_host [engine_sd, engine_uni]
             [(cuda_host, ''sd''), (cuda_host, ''uni''), (cuda_host, ''uni''), (cuda_host, ''sd'')]))"
proof -
  let ?m = "fst (loaded cuda_host [engine_sd, engine_uni])"
  let ?h = "snd (loaded cuda_host [engine_sd, engine_uni])"
  let ?cs = "[(cuda_host, ''sd''), (cuda_host, ''uni''), (cuda_host, ''uni''), (cuda_host, ''sd'')]"
  let ?ds = "[(cuda_host, ''sd''), (cuda_host, ''missing''), (cpu_host, ''uni'')]"
  note wf = loaded_wf [of cuda_host "[engine_sd, engine_uni]"] and two = loaded_two [of cuda_host]
  have reg: "registry_ok ?m ?h" using wf by simp
  have inv: "single_resident ?m ?h" using wf by (simp add: all_on_host_single_resident)
  then have ra: "resident_is_active ?m ?h" and ar: "active_is_resident ?m ?h"
    by (simp_all add: single_resident_parts)
  have m0: "w_mode (wraps ?h ! 0) = EngineMode_init 2 True False"
    and m1: "w_mode (wraps ?h ! 1) = EngineMode_init 2 True False"
    using wf two by simp_all
  have calls: "\<forall>(t, i) \<in> set ?cs. \<exists>r. pipelines ?m i = Some r \<and> device t (w_mode (wraps ?h ! r)) \<noteq> Cpu"
    using two m0 m1 by (simp add: device_cuda_host)
  have 1: "resident_is_active (fst (getPipe_all ?ds ?m ?h)) (snd (getPipe_all ?ds ?m ?h))"
    using residency_invariant_kept [of ?m ?h ?ds] ra by blast
  have 2: "active_is_resident (fst (getPipe_all ?cs ?m ?h)) (snd (getPipe_all ?cs ?m ?h))"
    using residency_invariant_kept [of ?m ?h ?cs] reg ra ar calls by blast
  from 1 2 show ?thesis
    by (simp only: after_calls_def)
qed

text \<open>
  Claim C1 against the code. With the engine "sd" active on cuda, \<open>getPipe\<close> for
  an identifier that is not registered raises \<open>KeyError\<close> and leaves the active
  pointer as it was, but it has moved the active wrapper to the host before the lookup
  failed. The next \<open>getPipe\<close> for "sd" then returns this wrapper without activating
  it.
\<close>

theorem getPipe_unknown_id_deactivates_active:
  "active (fst (after_calls cuda_host [engine_sd] [(cuda_host, ''sd'')])) = Some 0
   \<and> accelerator_resident (wraps (snd (after_calls cuda_host [engine_sd] [(cuda_host, ''sd'')])) ! 0)
   \<and> pipelines (fst (after_calls cuda_host [engine_sd] [(cuda_host, ''sd'')])) ''missing'' = None
   \<and> fst (getPipe cuda_host ''missing''
            (fst (after_calls cuda_host [engine_sd] [(cuda_host, ''sd'')]))
            (snd (after_calls cuda_host [engine_sd] [(cuda_host, ''sd'')])))
       = Inl (KeyError ''missing'')
   \<and> active (fst (after_calls cuda_host [engine_sd] [(cuda_host, ''sd''), (cuda_host, ''missing'')])) = Some 0
   \<and> host_resident (wraps (snd (after_calls cuda_host [engine_sd]
                                   [(cuda_host, ''sd''), (cuda_host, ''missing'')])) ! 0)
   \<and> fst (getPipe cuda_host ''sd''
            (fst (after_calls cuda_host [engine_sd] [(cuda_host, ''sd''), (cuda_host, ''missing'')]))
            (snd (after_calls cuda_host [engine_sd] [(cuda_host, ''sd''), (cuda_host, ''missing'')])))
       = Inr 0
   \<and> host_resident (wraps (snd (after_calls cuda_host [engine_sd]
                                   [(cuda_host, ''sd''), (cuda_host, ''missing''), (cuda_host, ''sd'')])) ! 0)"
proof -
  let ?m = "fst (loaded cuda_host [engine_sd])" and ?h = "snd (loaded cuda_host [engine_sd])"
  note wf = loaded_wf [of cuda_host "[engine_sd]"] and one = loaded_one [of cuda_host]
  have key: "pipelines ?m ''sd'' = Some 0" and nokey: "pipelines ?m ''missing'' = None"
    using one by simp_all
  have none: "active ?m = None" using wf by simp
  have len: "0 < length (wraps ?h)" using one by simp
  have ident: "w_id (wraps ?h ! 0) = ''sd''" using wf key by (simp add: registry_ok_def)
  have mode: "w_mode (wraps ?h ! 0) = EngineMode_init 2 True False" using wf one by simp
  define m1 where "m1 = ?m\<lparr>active := Some 0\<rparr>"
  define h1 where "h1 = ?h\<lparr>wraps := (wraps ?h)[0 := activate cuda_host (wraps ?h ! 0)]\<rparr>"
  define h2 where "h2 = h1\<lparr>wraps := (wraps h1)[0 := deactivate cuda_host (wraps h1 ! 0)]\<rparr>"
  have g1: "getPipe cuda_host ''sd'' ?m ?h = (Inr 0, m1, h1)"
    unfolding m1_def h1_def by (rule getPipe_first [OF none key])
  have a1: "active m1 = Some 0" by (simp add: m1_def)
  have i1: "''missing'' \<noteq> w_id (wraps h1 ! 0)" using len ident by (simp add: h1_def)
  have k1: "pipelines m1 ''missing'' = None" using nokey by (simp add: m1_def)
  have g2: "getPipe cuda_host ''missing'' m1 h1 = (Inl (KeyError ''missing''), m1, h2)"
    unfolding h2_def by (rule getPipe_missing [OF a1 i1 k1])
  have i2: "''sd'' = w_id (wraps h2 ! 0)" using len ident by (simp add: h2_def h1_def)
  have g3: "getPipe cuda_host ''sd'' m1 h2 = (Inr 0, m1, h2)"
    by (rule getPipe_same [OF a1 i2])
  have acc: "accelerator_resident (wraps h1 ! 0)"
    using len mode by (simp add: h1_def activate_accelerator device_cuda_host)
  have host: "host_resident (wraps h2 ! 0)" using len by (simp add: h2_def h1_def)
  have s1: "after_calls cuda_host [engine_sd] [(cuda_host, ''sd'')] = (m1, h1)"
    by (simp add: after_calls_def g1)
  have s2: "after_calls cuda_host [engine_sd] [(cuda_host, ''sd''), (cuda_host, ''missing'')] = (m1, h2)"
    by (simp add: after_calls_def g1 g2)
  have s3: "after_calls cuda_host [engine_sd] [(cuda_host, ''sd''), (cuda_host, ''missing''), (cuda_host, ''sd'')] = (m1, h2)"
    by (simp add: after_calls_def g1 g2 g3)
  show ?thesis
    unfolding s1 s2 s3 fst_conv snd_conv g2 g3 using acc host k1 a1 by simp
qed

end
